theory Spec2Isabelle
  imports Main "HOL-Library.Sublist" "HOL-Library.Char_ord" "HOL-Library.List_Lexorder"
begin

text \<open>
  An embedding of \<^verbatim>\<open>index.tsx\<close>, the single source file of a browser application that
  builds a knowledge base from documents, drafts a literature review with a language model
  and assists in revising it.  Handlers are functions from the application state to the
  application state; a handler that can throw also returns the error.  The model covers
  ingestion (\<^verbatim>\<open>analyzeAndStoreDocument\<close>, \<^verbatim>\<open>handleProcessArticle\<close>, \<^verbatim>\<open>handleFileSelect\<close>),
  review generation
  (\<^verbatim>\<open>handleGenerateReview\<close> and the two generators), the draft viewer, the bibliography,
  the acceptance of proofreading suggestions and the similarity check with its highlights.
  The proofreading call and the chat are not part of it.
\<close>

section \<open>Strings as the source uses them\<close>

text \<open>
  JavaScript strings are modelled as \<^typ>\<open>string\<close> (a list of characters).  The string
  built-ins the source calls are written out from their ECMAScript definitions:
  \<^verbatim>\<open>trim\<close>, \<^verbatim>\<open>indexOf\<close>, \<^verbatim>\<open>includes\<close>, \<^verbatim>\<open>startsWith\<close>, \<^verbatim>\<open>join\<close>,
  \<^verbatim>\<open>replace\<close> with a string pattern (first occurrence, with the \<^verbatim>\<open>$\<close> patterns of the
  replacement string expanded) and \<^verbatim>\<open>replace(/\n/g, r)\<close>.  A character of the model
  is a code unit below 256.  Of these, ECMAScript counts as white space or line terminator
  the tabulations and line ends \<open>0x09\<close> to \<open>0x0D\<close>, the space \<open>0x20\<close> and the no-break space
  \<open>0xA0\<close>; they are what \<^verbatim>\<open>trim\<close> removes at both ends.
\<close>

definition isWhiteSpace :: "char \<Rightarrow> bool" where
  "isWhiteSpace c =
     (c \<in> set [CHR 0x09, CHR 0x0A, CHR 0x0B, CHR 0x0C, CHR 0x0D, CHR 0x20, CHR 0xA0])"

definition trim :: "string \<Rightarrow> string" where
  "trim s = rev (dropWhile isWhiteSpace (rev (dropWhile isWhiteSpace s)))"

text \<open>\<^verbatim>\<open>t.indexOf(s)\<close>: the least position where \<open>s\<close> starts in \<open>t\<close>; JavaScript's \<^verbatim>\<open>-1\<close> is \<open>None\<close>.\<close>

fun indexOf :: "string \<Rightarrow> string \<Rightarrow> nat option" where
  "indexOf [] s = (if s = [] then Some 0 else None)"
| "indexOf (c # t) s = (if prefix s (c # t) then Some 0 else map_option Suc (indexOf t s))"

definition str_includes :: "string \<Rightarrow> string \<Rightarrow> bool" where
  "str_includes t s = (indexOf t s \<noteq> None)"

definition startsWith :: "string \<Rightarrow> string \<Rightarrow> bool" where
  "startsWith t s = prefix s t"

fun join :: "string \<Rightarrow> string list \<Rightarrow> string" where
  "join sep [] = []"
| "join sep [x] = x"
| "join sep (x # y # ys) = x @ sep @ join sep (y # ys)"

text \<open>The line feed and the double quote, as strings.\<close>

definition LF :: string where
  "LF = [CHR 0x0A]"

definition DQ :: string where
  "DQ = [CHR 0x22]"

text \<open>\<^verbatim>\<open>s.replace(/\n/g, r)\<close>: every line feed replaced.\<close>

definition replaceNewlines :: "string \<Rightarrow> string \<Rightarrow> string" where
  "replaceNewlines r s = concat (map (\<lambda>c. if c = CHR 0x0A then r else [c]) s)"

text \<open>
  The replacement string of \<^verbatim>\<open>String.prototype.replace\<close> is not inserted literally:
  \<^verbatim>\<open>$$\<close> stands for one dollar sign, \<^verbatim>\<open>$&\<close> for the matched text, \<^verbatim>\<open>$`\<close> for the text
  before the match and \<^verbatim>\<open>$'\<close> for the text after it.  With a string pattern there are no
  capture groups, so every other use of \<^verbatim>\<open>$\<close> is kept as it is.
\<close>

fun getSubstitution :: "string \<Rightarrow> string \<Rightarrow> string \<Rightarrow> string \<Rightarrow> string" where
  "getSubstitution matched pre post [] = []"
| "getSubstitution matched pre post [c] = [c]"
| "getSubstitution matched pre post (c # d # r) =
     (if c = CHR ''$'' \<and> d = CHR ''$'' then CHR ''$'' # getSubstitution matched pre post r
      else if c = CHR ''$'' \<and> d = CHR ''&'' then matched @ getSubstitution matched pre post r
      else if c = CHR ''$'' \<and> d = CHR 0x60 then pre @ getSubstitution matched pre post r
      else if c = CHR ''$'' \<and> d = CHR 0x27 then post @ getSubstitution matched pre post r
      else c # getSubstitution matched pre post (d # r))"

text \<open>\<open>dollarPattern rep\<close>: one of these four patterns occurs in \<open>rep\<close>.\<close>

fun dollarPattern :: "string \<Rightarrow> bool" where
  "dollarPattern [] = False"
| "dollarPattern [c] = False"
| "dollarPattern (c # d # r) =
     (c = CHR ''$'' \<and> d \<in> set [CHR ''$'', CHR ''&'', CHR 0x60, CHR 0x27] \<or> dollarPattern (d # r))"

definition replace :: "string \<Rightarrow> string \<Rightarrow> string \<Rightarrow> string" where
  "replace str pat rep =
     (case indexOf str pat of
        None \<Rightarrow> str
      | Some i \<Rightarrow>
          (let pre = take i str; post = drop (i + length pat) str
           in pre @ getSubstitution pat pre post rep @ post))"

text \<open>A number inside a template literal: its decimal digits.\<close>

fun toString :: "nat \<Rightarrow> string" where
  "toString n =
     (if n < 10 then [''0123456789'' ! n] else toString (n div 10) @ [''0123456789'' ! (n mod 10)])"

section \<open>Data model\<close>

record KnowledgeSource =
  fileName :: string
  author :: string
  year :: string
  summary :: string
  entities :: "string list"
  fullText :: string

record Suggestion =
  category :: string
  issue :: string
  suggestion :: string
  explanation :: string

text \<open>The three JSON shapes the source requests from the model with a response schema.\<close>

record DocumentJson =
  json_author :: string
  json_year :: string
  json_summary :: string
  json_entities :: "string list"

record OutlineJson =
  introduction :: string
  themes :: "string list"
  conclusion :: string

record SimilarityJson =
  original_sentence :: string
  similar_passage_from_source :: string
  source_filename :: string
  rewritten_suggestion :: string

text \<open>
  The editable draft is a DOM subtree.  A node is a text node or an element with its tag,
  its class list, its \<^verbatim>\<open>data-*\<close> attributes and its children; no other attribute is read
  or written by the source.
\<close>

datatype node =
  TextNode string
| Element (tagName: string) (classList: "string list") (dataset: "(string \<times> string) list")
    (childNodes: "node list")

text \<open>
  A reference to an element held in a variable: the element is in the editor, at a path of
  child indices, or it has been removed from the document since.
\<close>

datatype highlightRef = InEditor "nat list" | Detached

datatype Chat = Chat (systemInstruction: string) (history: "string list")

datatype error = ApiError | SyntaxError | TypeError | Error string

record versionButton =
  textContent_of :: string
  dataset_index :: nat
  active :: bool

section \<open>The environment: model service and browser\<close>

text \<open>
  Everything the program does not own is a parameter.
  \<^item> \<open>generateContent E n prompt\<close> is the text of the model's response to the \<open>n\<close>-th call
    of the session when it is asked \<open>prompt\<close>; \<open>None\<close> is a rejected promise.
  \<^item> \<^verbatim>\<open>JSON.parse\<close> of a response requested with a schema yields a value of that schema's
    shape, or throws (\<open>None\<close>).
  \<^item> \<open>parseHTML\<close> and \<open>serializeHTML\<close> are the setter and the getter of \<^verbatim>\<open>innerHTML\<close>,
    \<open>innerText\<close> is the rendered text of a subtree, \<open>localeCompare\<close> is the collation
    of the host.
\<close>

record env =
  generateContent :: "nat \<Rightarrow> string \<Rightarrow> string option"
  JSON_parse_document :: "string \<Rightarrow> DocumentJson option"
  JSON_parse_outline :: "string \<Rightarrow> OutlineJson option"
  JSON_parse_similarity :: "string \<Rightarrow> SimilarityJson list option"
  parseHTML :: "string \<Rightarrow> node list"
  serializeHTML :: "node list \<Rightarrow> string"
  innerText :: "node list \<Rightarrow> string"
  localeCompare :: "string \<Rightarrow> string \<Rightarrow> int"

section \<open>Application state\<close>

text \<open>
  The module-level variables of \<^verbatim>\<open>index.tsx\<close>, the parts of the page the handlers read or
  write, and two logs of effects: the alerts shown to the user and the prompts sent to the
  model, in order.  The suggestions panel and the cards of the knowledge list are functions
  of \<open>analysisSuggestions\<close> and \<open>knowledgeSources\<close> that are rendered anew after every change;
  they are not stored.  Neither are the \<^verbatim>\<open>disabled\<close> flags that \<open>setLoading\<close> sets on the
  controls, which no handler reads.
\<close>

record app =
  isLoading :: bool
  loaderText :: string
  knowledgeSources :: "KnowledgeSource list"
  currentFileName :: string
  draftHistory :: "string list"
  chat :: "Chat option"
  analysisSuggestions :: "Suggestion list"
  activeSimilarityHighlight :: "highlightRef option"
  articleInput :: string
  fileInput :: string
  fileNameDisplay :: string
  reviewTopicInput :: string
  reviewLength :: string
  knowledgeSectionsHidden :: bool
  reviewGenerationProgressHidden :: bool
  reviewProgressLog :: "string list"
  reviewDraftOutput :: string
  draftVersionControls :: "versionButton list"
  writingAssistantSectionHidden :: bool
  writingEditor :: "node list"
  referencesContainerHidden :: bool
  referencesList :: "string list"
  tooltipHidden :: bool
  alerts :: "string list"
  calls :: "string list"

definition setLoading :: "bool \<Rightarrow> string \<Rightarrow> app \<Rightarrow> app" where
  "setLoading loading txt s = s\<lparr>isLoading := loading, loaderText := txt\<rparr>"

definition alert :: "string \<Rightarrow> app \<Rightarrow> app" where
  "alert msg s = s\<lparr>alerts := alerts s @ [msg]\<rparr>"

text \<open>One call of \<^verbatim>\<open>ai.models.generateContent\<close>: the prompt is logged, the response read.\<close>

definition ai_generateContent :: "env \<Rightarrow> string \<Rightarrow> app \<Rightarrow> string option \<times> app" where
  "ai_generateContent E prompt s =
     (generateContent E (length (calls s)) prompt, s\<lparr>calls := calls s @ [prompt]\<rparr>)"

section \<open>Document ingestion\<close>

definition renderKnowledgeSources :: "app \<Rightarrow> app" where
  "renderKnowledgeSources s =
     (if length (knowledgeSources s) > 0 then s\<lparr>knowledgeSectionsHidden := False\<rparr> else s)"

definition analysisPrompt :: "string \<Rightarrow> string" where
  "analysisPrompt articleText =
     ''Analyze the following article text. Extract the primary author's last name, the publication year, a concise one-paragraph summary, and a list of key entities. Article:''
     @ [CHR 0x0A, CHR 0x0A] @ articleText"

definition analyzeAndStoreDocument :: "env \<Rightarrow> string \<Rightarrow> string \<Rightarrow> app \<Rightarrow> error option \<times> app" where
  "analyzeAndStoreDocument E fname articleText s =
     (if list_ex (\<lambda>src. fileName src = fname) (knowledgeSources s) then (None, s)
      else
        (let s1 = s\<lparr>chat := None\<rparr>;
             (response, s2) = ai_generateContent E (analysisPrompt articleText) s1;
             failed = Some (Error (''Failed to analyze '' @ fname @ ''.''))
         in case response of
              None \<Rightarrow> (failed, s2)
            | Some txt \<Rightarrow>
                (case JSON_parse_document E txt of
                   None \<Rightarrow> (failed, s2)
                 | Some parsedResponse \<Rightarrow>
                     (None, renderKnowledgeSources
                        (s2\<lparr>knowledgeSources := knowledgeSources s2 @
                           [\<lparr>fileName = fname,
                             author = json_author parsedResponse,
                             year = json_year parsedResponse,
                             summary = json_summary parsedResponse,
                             entities = json_entities parsedResponse,
                             fullText = articleText\<rparr>]\<rparr>)))))"

definition pastedContentName :: "KnowledgeSource list \<Rightarrow> string" where
  "pastedContentName ks =
     ''Pasted Content '' @
       toString (length (filter (\<lambda>src. startsWith (fileName src) ''Pasted Content'') ks) + 1)"

definition handleProcessArticle :: "env \<Rightarrow> app \<Rightarrow> app" where
  "handleProcessArticle E s =
     (let articleText = trim (articleInput s)
      in if articleText = [] then
           alert ''Please paste text into the text area or upload a file.'' s
         else
           (let docName = (if currentFileName s \<noteq> [] then currentFileName s
                           else pastedContentName (knowledgeSources s))
            in if list_ex (\<lambda>src. fileName src = docName) (knowledgeSources s) then
                 alert ([CHR 0x22] @ docName @ [CHR 0x22] @
                        '' has already been added to the knowledge base.'') s
               else
                 (let s1 = setLoading True (''Analyzing '' @ docName @ ''...'') s;
                      (err, s2) = analyzeAndStoreDocument E docName articleText s1;
                      s3 = (case err of
                              None \<Rightarrow> s2\<lparr>articleInput := [], fileInput := [],
                                          fileNameDisplay := [], currentFileName := []\<rparr>
                            | Some e \<Rightarrow>
                                alert ''An error occurred while building the knowledge base.'' s2)
                  in setLoading False ''Processing...'' s3)))"

text \<open>
  A file chosen in the file input: its name, its MIME type and what reading it yields.
  \<open>file_text\<close> is the result of \<^verbatim>\<open>file.text()\<close> and \<open>file_pdf\<close> the pages that the PDF
  library finds, each page the \<^verbatim>\<open>str\<close> fields of its items (\<open>None\<close> for an item without
  one); either is \<open>None\<close> when the promise is rejected.  The text of a PDF is the items of
  each page joined by spaces, every page followed by a blank line.
\<close>

record selectedFile =
  file_name :: string
  file_type :: string
  file_text :: "string option"
  file_pdf :: "string option list list option"

definition readFile :: "selectedFile \<Rightarrow> string option" where
  "readFile file =
     (if file_type file = ''application/pdf'' then
        map_option
          (\<lambda>pages. concat (map (\<lambda>items.
                     join '' '' (map (\<lambda>str. case str of None \<Rightarrow> [] | Some t \<Rightarrow> t) items)
                     @ LF @ LF) pages))
          (file_pdf file)
      else file_text file)"

text \<open>
  One pass through the loop of the multi-file branch, for the file at index \<open>i\<close> of \<open>n\<close>:
  a file that cannot be read and a document that cannot be analyzed are reported and the
  loop goes on.  The text read is trimmed and passed on as it is, also when nothing is left
  of it.  The Process button, disabled for the time of the loop, is not part of the state.
\<close>

definition processFile :: "env \<Rightarrow> nat \<Rightarrow> app \<Rightarrow> nat \<times> selectedFile \<Rightarrow> app" where
  "processFile E n s indexed =
     (case indexed of (i, file) \<Rightarrow>
        (let s1 = setLoading True (''Processing '' @ toString (i + 1) @ ''/'' @ toString n @ '': ''
                                   @ file_name file) s;
             skipped = alert (''An error occurred while processing '' @ file_name file
                              @ ''. Skipping to the next file.'')
         in case readFile file of
              None \<Rightarrow> skipped s1
            | Some content \<Rightarrow>
                (case analyzeAndStoreDocument E (file_name file) (trim content) s1 of
                   (None, s2) \<Rightarrow> s2
                 | (Some e, s2) \<Rightarrow> skipped s2)))"

definition handleFileSelect :: "env \<Rightarrow> selectedFile list \<Rightarrow> app \<Rightarrow> app" where
  "handleFileSelect E files s =
     (if length files = 0 then s\<lparr>fileNameDisplay := [], currentFileName := []\<rparr>
      else if length files = 1 then
        (let file = files ! 0;
             s1 = setLoading True (''Parsing '' @ file_name file @ ''...'')
                    (s\<lparr>fileNameDisplay := ''Selected: '' @ file_name file,
                       currentFileName := file_name file, articleInput := []\<rparr>);
             s2 = (case readFile file of
                     Some content \<Rightarrow> s1\<lparr>articleInput := trim content\<rparr>
                   | None \<Rightarrow>
                       alert (''Error processing '' @ file_name file
                              @ ''. Please ensure it's a valid text or PDF file.'')
                         (s1\<lparr>fileNameDisplay := ''Error processing file.'',
                             currentFileName := []\<rparr>))
         in setLoading False ''Processing...'' s2)
      else
        (let n = length files;
             s1 = s\<lparr>fileNameDisplay := ''Selected '' @ toString n @ '' files: ''
                                       @ join '', '' (map file_name files)\<rparr>;
             s2 = foldl (processFile E n) s1 (enumerate 0 files)
         in (setLoading False ''Processing...'' s2)
              \<lparr>fileNameDisplay := toString n @ '' file(s) processed.'', fileInput := []\<rparr>))"

section \<open>The editor's DOM\<close>

fun textContent :: "node list \<Rightarrow> string" where
  "textContent [] = []"
| "textContent (TextNode t # ns) = t @ textContent ns"
| "textContent (Element tg cl ds kids # ns) = textContent kids @ textContent ns"

text \<open>
  \<^verbatim>\<open>normalize()\<close>: in every descendant, adjacent text nodes are merged and empty text
  nodes are removed.
\<close>

fun normalize :: "node list \<Rightarrow> node list" where
  "normalize [] = []"
| "normalize (Element tg cl ds kids # ns) = Element tg cl ds (normalize kids) # normalize ns"
| "normalize (TextNode a # ns) =
     (case normalize ns of
        TextNode b # r \<Rightarrow> TextNode (a @ b) # r
      | r \<Rightarrow> if a = [] then r else TextNode a # r)"

fun nodeAt :: "nat list \<Rightarrow> node list \<Rightarrow> node option" where
  "nodeAt [] ns = None"
| "nodeAt [i] ns = (if i < length ns then Some (ns ! i) else None)"
| "nodeAt (i # j # p) ns =
     (if i < length ns then
        (case ns ! i of
           Element tg cl ds kids \<Rightarrow> nodeAt (j # p) kids
         | TextNode t \<Rightarrow> None)
      else None)"

text \<open>\<^verbatim>\<open>el.replaceWith(new)\<close> for the element at a path of the editor.\<close>

fun replaceWith :: "nat list \<Rightarrow> node \<Rightarrow> node list \<Rightarrow> node list" where
  "replaceWith [] new ns = ns"
| "replaceWith [i] new ns = (if i < length ns then ns[i := new] else ns)"
| "replaceWith (i # j # p) new ns =
     (if i < length ns then
        (case ns ! i of
           Element tg cl ds kids \<Rightarrow> ns[i := Element tg cl ds (replaceWith (j # p) new kids)]
         | TextNode t \<Rightarrow> ns)
      else ns)"

text \<open>
  \<^verbatim>\<open>removeHighlights\<close>: every element of class \<^verbatim>\<open>similarity-highlight\<close> is replaced by a
  text node holding its text content (an element nested in another highlight leaves the
  document with it), then the editor is normalized.  The active highlight, when there is
  one, is such an element: afterwards it is no longer in the document.
\<close>

fun unwrapHighlights :: "node list \<Rightarrow> node list" where
  "unwrapHighlights [] = []"
| "unwrapHighlights (TextNode t # ns) = TextNode t # unwrapHighlights ns"
| "unwrapHighlights (Element tg cl ds kids # ns) =
     (if ''similarity-highlight'' \<in> set cl then TextNode (textContent kids)
      else Element tg cl ds (unwrapHighlights kids)) # unwrapHighlights ns"

definition removeHighlights :: "app \<Rightarrow> app" where
  "removeHighlights s =
     s\<lparr>writingEditor := normalize (unwrapHighlights (writingEditor s)),
       activeSimilarityHighlight := map_option (\<lambda>r. Detached) (activeSimilarityHighlight s)\<rparr>"

text \<open>
  \<^verbatim>\<open>highlightText\<close> walks the text nodes of the editor in document order.  In the first one
  whose value contains \<open>textToFind\<close>, the range of the first occurrence is surrounded by a
  new \<^verbatim>\<open>span\<close>: the text node is split around the range (the parts before and after stay
  as text nodes, also when they are empty) and the span receives the extracted text, which
  is no node at all when the range is empty.  The walk stops there.  \<open>None\<close> is a walk
  that reached the end.
\<close>

definition highlightSpan :: "string \<Rightarrow> string \<Rightarrow> string \<Rightarrow> node" where
  "highlightSpan original sugg wrapped =
     Element ''span'' [''similarity-highlight''] [(''original'', original), (''suggestion'', sugg)]
       (if wrapped = [] then [] else [TextNode wrapped])"

fun walkNode :: "string \<Rightarrow> string \<Rightarrow> string \<Rightarrow> node \<Rightarrow> node list option"
  and walkNodes :: "string \<Rightarrow> string \<Rightarrow> string \<Rightarrow> node list \<Rightarrow> node list option" where
  "walkNode textToFind original sugg (TextNode v) =
     (case indexOf v textToFind of
        None \<Rightarrow> None
      | Some index \<Rightarrow>
          Some [TextNode (take index v),
                highlightSpan original sugg (take (length textToFind) (drop index v)),
                TextNode (drop (index + length textToFind) v)])"
| "walkNode textToFind original sugg (Element tg cl ds kids) =
     map_option (\<lambda>kids'. [Element tg cl ds kids']) (walkNodes textToFind original sugg kids)"
| "walkNodes textToFind original sugg [] = None"
| "walkNodes textToFind original sugg (n # ns) =
     (case walkNode textToFind original sugg n of
        Some r \<Rightarrow> Some (r @ ns)
      | None \<Rightarrow> map_option ((#) n) (walkNodes textToFind original sugg ns))"

definition highlightText :: "string \<Rightarrow> string \<Rightarrow> string \<Rightarrow> node list \<Rightarrow> node list" where
  "highlightText textToFind original sugg editor =
     (case walkNodes textToFind original sugg editor of None \<Rightarrow> editor | Some editor' \<Rightarrow> editor')"

text \<open>Assigning \<^verbatim>\<open>writingEditor.innerHTML\<close> replaces every node of the editor.\<close>

definition set_innerHTML :: "env \<Rightarrow> string \<Rightarrow> app \<Rightarrow> app" where
  "set_innerHTML E markup s =
     s\<lparr>writingEditor := parseHTML E markup,
       activeSimilarityHighlight := map_option (\<lambda>r. Detached) (activeSimilarityHighlight s)\<rparr>"

section \<open>Similarity regions: tooltip, accept, dismiss\<close>

definition showSimilarityTooltip :: "nat list \<Rightarrow> app \<Rightarrow> app" where
  "showSimilarityTooltip p s = s\<lparr>activeSimilarityHighlight := Some (InEditor p), tooltipHidden := False\<rparr>"

definition hideSimilarityTooltip :: "app \<Rightarrow> app" where
  "hideSimilarityTooltip s = s\<lparr>tooltipHidden := True, activeSimilarityHighlight := None\<rparr>"

definition dataset_get :: "(string \<times> string) list \<Rightarrow> string \<Rightarrow> string" where
  "dataset_get ds key = (case map_of ds key of None \<Rightarrow> [] | Some v \<Rightarrow> v)"

text \<open>
  Both handlers replace the active element by a text node and normalize the editor.  An
  element that has left the document has no parent, so replacing it changes nothing.
\<close>

definition resolveHighlight :: "(node \<Rightarrow> string) \<Rightarrow> app \<Rightarrow> app" where
  "resolveHighlight newText s =
     hideSimilarityTooltip
       (case activeSimilarityHighlight s of
          None \<Rightarrow> s
        | Some Detached \<Rightarrow> s\<lparr>writingEditor := normalize (writingEditor s)\<rparr>
        | Some (InEditor p) \<Rightarrow>
            (case nodeAt p (writingEditor s) of
               None \<Rightarrow> s\<lparr>writingEditor := normalize (writingEditor s)\<rparr>
             | Some el \<Rightarrow>
                 s\<lparr>writingEditor :=
                     normalize (replaceWith p (TextNode (newText el)) (writingEditor s))\<rparr>))"

definition acceptSimilaritySuggestion :: "app \<Rightarrow> app" where
  "acceptSimilaritySuggestion s =
     resolveHighlight
       (\<lambda>el. case el of Element tg cl ds kids \<Rightarrow> dataset_get ds ''suggestion'' | TextNode t \<Rightarrow> []) s"

definition dismissSimilaritySuggestion :: "app \<Rightarrow> app" where
  "dismissSimilaritySuggestion s = resolveHighlight (\<lambda>el. textContent [el]) s"

section \<open>Review pipeline\<close>

definition addProgressLog :: "string \<Rightarrow> app \<Rightarrow> app" where
  "addProgressLog html s = s\<lparr>reviewProgressLog := reviewProgressLog s @ [html]\<rparr>"

definition knowledgeContext :: "KnowledgeSource list \<Rightarrow> string" where
  "knowledgeContext ks =
     join (LF @ LF)
       (map (\<lambda>src. ''--- DOCUMENT: '' @ fileName src @ LF @ ''AUTHOR: '' @ author src @ LF @
                   ''YEAR: '' @ year src @ LF @ ''SUMMARY: '' @ summary src @ LF @ ''---'') ks)"

definition concisePrompt :: "string \<Rightarrow> string \<Rightarrow> string" where
  "concisePrompt topic ctx =
     ''Based on the following knowledge base, write a concise, one-paragraph literature review on the topic: ''
     @ DQ @ topic @ DQ @
     ''. Compare and contrast the key findings. IMPORTANT: When you use information from a source, you MUST include an APA-style in-text citation, like this: (Author, Year). Do not use markdown.''
     @ LF @ LF @ ''KNOWLEDGE BASE:'' @ LF @ ctx"

definition outlinePrompt :: "string \<Rightarrow> string \<Rightarrow> string" where
  "outlinePrompt topic ctx =
     ''Based on the provided knowledge base, create a structured outline for an academic literature review on ''
     @ DQ @ topic @ DQ @
     ''. Identify key themes for the body based on comparing, contrasting, and evaluating the sources. Respond in JSON. KNOWLEDGE BASE:''
     @ LF @ ctx"

definition introPrompt :: "string \<Rightarrow> string \<Rightarrow> string \<Rightarrow> string" where
  "introPrompt topic plan ctx =
     ''Write the introduction for a literature review on '' @ DQ @ topic @ DQ @
     '', following this plan: '' @ plan @
     ''. Use the provided knowledge base and include APA-style (Author, Year) citations. Output only the introduction text. KNOWLEDGE BASE:''
     @ LF @ ctx"

definition themePrompt :: "string \<Rightarrow> string \<Rightarrow> string \<Rightarrow> string" where
  "themePrompt theme topic ctx =
     ''Write a body paragraph for a literature review on the theme: '' @ DQ @ theme @ DQ @
     ''. Compare and contrast sources, evaluate arguments, and connect back to the main topic of ''
     @ DQ @ topic @ DQ @
     ''. Cite sources with (Author, Year). Use the provided knowledge base. Output only the paragraph text. KNOWLEDGE BASE:''
     @ LF @ ctx"

definition conclusionPrompt :: "string \<Rightarrow> string \<Rightarrow> string \<Rightarrow> string" where
  "conclusionPrompt topic plan ctx =
     ''Write the conclusion for a literature review on '' @ DQ @ topic @ DQ @
     '', following this plan: '' @ plan @
     ''. Use the provided knowledge base and cite with (Author, Year). Output only the conclusion text. KNOWLEDGE BASE:''
     @ LF @ ctx"

definition generateConciseReview :: "env \<Rightarrow> string \<Rightarrow> string \<Rightarrow> app \<Rightarrow> error option \<times> app" where
  "generateConciseReview E topic ctx s =
     (let s1 = setLoading True ''Generating concise review...'' s;
          s2 = addProgressLog ''<strong>Step 1:</strong> Generating concise draft...'' s1;
          (response, s3) = ai_generateContent E (concisePrompt topic ctx) s2
      in case response of
           None \<Rightarrow> (Some ApiError, s3)
         | Some draft \<Rightarrow>
             (None, addProgressLog ''Concise draft created.''
                (s3\<lparr>draftHistory := draftHistory s3 @ [draft],
                    reviewDraftOutput := replaceNewlines ''<br>'' draft\<rparr>)))"

definition outlineHtml :: "OutlineJson \<Rightarrow> string" where
  "outlineHtml outline =
     ''<h3>Outline</h3><ul><li>Introduction</li><li>Body Paragraphs:<ul>'' @
     join [] (map (\<lambda>t. ''<li>'' @ t @ ''</li>'') (themes outline)) @
     ''</ul></li><li>Conclusion</li></ul>''"

text \<open>
  The two statements that follow every section written in detailed mode:
  \<^verbatim>\<open>draftHistory.push(fullDraftParts.join('\n\n'))\<close> and the refresh of the output pane.
\<close>

definition pushDraft :: "string list \<Rightarrow> app \<Rightarrow> app" where
  "pushDraft fullDraftParts s =
     s\<lparr>draftHistory := draftHistory s @ [join (LF @ LF) fullDraftParts],
       reviewDraftOutput := join ''<br><br>'' (map (replaceNewlines ''<br>'') fullDraftParts)\<rparr>"

text \<open>
  The loop over \<^verbatim>\<open>outline.themes\<close>.  \<open>themeBody\<close> is one pass through its body for the
  theme at index \<open>i\<close>: it yields the extended \<open>fullDraftParts\<close>, or \<open>None\<close> when the call
  is rejected.  In \<open>themeLoop\<close> the list holds the themes from index \<open>i\<close> on.
\<close>

definition themeBody ::
  "env \<Rightarrow> string \<Rightarrow> string \<Rightarrow> nat \<Rightarrow> string \<Rightarrow> string list \<Rightarrow> app \<Rightarrow> string list option \<times> app" where
  "themeBody E topic ctx i theme fullDraftParts s =
     (let s1 = setLoading True (''Step '' @ toString (3 + i) @ '': Developing theme: '' @ theme) s;
          s2 = addProgressLog (''<strong>Step '' @ toString (3 + i) @ '':</strong> Developing theme: <em>''
                 @ DQ @ theme @ DQ @ ''</em>...'') s1;
          (response, s3) = ai_generateContent E (themePrompt theme topic ctx) s2
      in case response of
           None \<Rightarrow> (None, s3)
         | Some themeText \<Rightarrow>
             (Some (fullDraftParts @ [themeText]), pushDraft (fullDraftParts @ [themeText]) s3))"

fun themeLoop ::
  "env \<Rightarrow> string \<Rightarrow> string \<Rightarrow> nat \<Rightarrow> string list \<Rightarrow> string list \<Rightarrow> app
     \<Rightarrow> error option \<times> string list \<times> app" where
  "themeLoop E topic ctx i [] fullDraftParts s = (None, fullDraftParts, s)"
| "themeLoop E topic ctx i (theme # rest) fullDraftParts s =
     (case themeBody E topic ctx i theme fullDraftParts s of
        (None, s') \<Rightarrow> (Some ApiError, fullDraftParts, s')
      | (Some parts', s') \<Rightarrow> themeLoop E topic ctx (Suc i) rest parts' s')"

definition generateDetailedReview :: "env \<Rightarrow> string \<Rightarrow> string \<Rightarrow> app \<Rightarrow> error option \<times> app" where
  "generateDetailedReview E topic ctx s =
     (let s1 = addProgressLog ''<strong>Step 1:</strong> Creating a structured outline...''
                 (setLoading True ''Step 1: Creating a structured outline...'' s);
          (outlineResponse, s2) = ai_generateContent E (outlinePrompt topic ctx) s1
      in case outlineResponse of
           None \<Rightarrow> (Some ApiError, s2)
         | Some outlineText \<Rightarrow>
            (case JSON_parse_outline E outlineText of
               None \<Rightarrow> (Some SyntaxError, s2)
             | Some outline \<Rightarrow>
                (let s3 = addProgressLog ''Outline created. Now writing sections...''
                            (s2\<lparr>draftHistory := draftHistory s2 @ [outlineHtml outline],
                                reviewDraftOutput := outlineHtml outline\<rparr>);
                     s4 = addProgressLog ''<strong>Step 2:</strong> Writing the introduction...''
                            (setLoading True ''Step 2: Writing introduction...'' s3);
                     (introResponse, s5) =
                        ai_generateContent E (introPrompt topic (introduction outline) ctx) s4
                 in case introResponse of
                      None \<Rightarrow> (Some ApiError, s5)
                    | Some introText \<Rightarrow>
                       (let s6 = pushDraft [introText] s5;
                            (err, fullDraftParts, s7) =
                               themeLoop E topic ctx 0 (themes outline) [introText] s6
                        in case err of
                             Some e \<Rightarrow> (Some e, s7)
                           | None \<Rightarrow>
                              (let conclusionStep = 3 + length (themes outline);
                                   s8 = addProgressLog (''<strong>Step '' @ toString conclusionStep
                                          @ '':</strong> Writing the conclusion...'')
                                          (setLoading True (''Step '' @ toString conclusionStep
                                             @ '': Writing conclusion...'') s7);
                                   (conclusionResponse, s9) =
                                      ai_generateContent E
                                        (conclusionPrompt topic (conclusion outline) ctx) s8
                               in case conclusionResponse of
                                    None \<Rightarrow> (Some ApiError, s9)
                                  | Some conclusionText \<Rightarrow>
                                      (None, pushDraft (fullDraftParts @ [conclusionText]) s9))))))"

section \<open>Draft viewer\<close>

definition renderDraftViewer :: "app \<Rightarrow> app" where
  "renderDraftViewer s =
     (let n = length (draftHistory s)
      in if n = 0 then s\<lparr>draftVersionControls := []\<rparr>
         else
           (let buttons =
                  map (\<lambda>index.
                         \<lparr>textContent_of =
                            (if index = 0 then ''Outline''
                             else if index = n - 1 then ''Final''
                             else ''Step '' @ toString index),
                          dataset_index = index, active = False\<rparr>) [0..<n]
            in s\<lparr>draftVersionControls := buttons[n - 1 := (buttons ! (n - 1))\<lparr>active := True\<rparr>]\<rparr>))"

section \<open>Bibliography\<close>

definition citation :: "KnowledgeSource \<Rightarrow> string" where
  "citation src = ''('' @ author src @ '', '' @ year src @ '')''"

text \<open>The body of the \<^verbatim>\<open>forEach\<close> over the knowledge sources.\<close>

definition collectCited :: "string \<Rightarrow> KnowledgeSource list \<Rightarrow> KnowledgeSource \<Rightarrow> KnowledgeSource list" where
  "collectCited finalDraft citedSources src =
     (if str_includes finalDraft (citation src) then
        (if \<not> list_ex (\<lambda>c. fileName c = fileName src) citedSources then citedSources @ [src]
         else citedSources)
      else citedSources)"

text \<open>
  \<^verbatim>\<open>Array.prototype.sort\<close> with a comparator is stable: an element goes before the first
  one it does not compare greater than.
\<close>

fun insertBy :: "('a \<Rightarrow> 'a \<Rightarrow> int) \<Rightarrow> 'a \<Rightarrow> 'a list \<Rightarrow> 'a list" where
  "insertBy cmp x [] = [x]"
| "insertBy cmp x (y # ys) = (if cmp x y \<le> 0 then x # y # ys else y # insertBy cmp x ys)"

definition sortBy :: "('a \<Rightarrow> 'a \<Rightarrow> int) \<Rightarrow> 'a list \<Rightarrow> 'a list" where
  "sortBy cmp xs = foldr (insertBy cmp) xs []"

text \<open>
  \<^verbatim>\<open>name.replace(/\.(txt|pdf|md)$/i, '')\<close>: a final \<^verbatim>\<open>.txt\<close>, \<^verbatim>\<open>.pdf\<close> or \<^verbatim>\<open>.md\<close>, in
  either case of each letter, is removed.
\<close>

definition matchesIgnoreCase :: "string \<Rightarrow> string \<Rightarrow> string \<Rightarrow> bool" where
  "matchesIgnoreCase lower upper str =
     (length str = length lower \<and>
      list_all (\<lambda>(c, l, u). c = l \<or> c = u) (zip str (zip lower upper)))"

definition stripExtension :: "string \<Rightarrow> string" where
  "stripExtension name =
     (let n = length name
      in if 4 \<le> n \<and> (matchesIgnoreCase ''.txt'' ''.TXT'' (drop (n - 4) name)
                     \<or> matchesIgnoreCase ''.pdf'' ''.PDF'' (drop (n - 4) name))
         then take (n - 4) name
         else if 3 \<le> n \<and> matchesIgnoreCase ''.md'' ''.MD'' (drop (n - 3) name)
         then take (n - 3) name
         else name)"

definition formatReference :: "KnowledgeSource \<Rightarrow> string" where
  "formatReference src =
     author src @ ''. ('' @ year src @ ''). '' @ stripExtension (fileName src) @ ''.''"

definition generateBibliography :: "env \<Rightarrow> app \<Rightarrow> app" where
  "generateBibliography E s =
     (let finalDraft = serializeHTML E (writingEditor s);
          citedSources = foldl (collectCited finalDraft) [] (knowledgeSources s)
      in if length citedSources > 0 then
           s\<lparr>referencesList :=
               map formatReference
                 (sortBy (\<lambda>a b. localeCompare E (author a) (author b)) citedSources),
             referencesContainerHidden := False\<rparr>
         else s\<lparr>referencesContainerHidden := True\<rparr>)"

section \<open>Review generation handler\<close>

definition handleGenerateReview :: "env \<Rightarrow> app \<Rightarrow> app" where
  "handleGenerateReview E s =
     (let topic = trim (reviewTopicInput s)
      in if topic = [] then s
         else
           (let s1 = s\<lparr>reviewGenerationProgressHidden := False,
                       writingAssistantSectionHidden := True,
                       reviewProgressLog := [], reviewDraftOutput := [],
                       draftVersionControls := [], draftHistory := [],
                       referencesContainerHidden := True, referencesList := []\<rparr>;
                ctx = knowledgeContext (knowledgeSources s1);
                (err, s2) =
                   (if reviewLength s1 = ''detailed'' then generateDetailedReview E topic ctx s1
                    else generateConciseReview E topic ctx s1);
                s3 = (case err of
                        None \<Rightarrow>
                          (let s4 = renderDraftViewer
                                      (addProgressLog
                                         ''<strong>Final Draft Generated.</strong> Moving to Writing Assistant.''
                                         s2);
                               finalDraft = (if draftHistory s4 = [] then []
                                             else last (draftHistory s4));
                               s5 = set_innerHTML E
                                      (''<div>'' @ replaceNewlines ''</div><div>'' finalDraft
                                         @ ''</div>'') s4;
                               s6 = generateBibliography E s5
                           in s6\<lparr>writingAssistantSectionHidden := False\<rparr>)
                      | Some e \<Rightarrow>
                          alert ''An error occurred. Please check the console.''
                            (addProgressLog ''An error occurred during generation.'' s2))
            in setLoading False ''Processing...'' s3))"

section \<open>Proofreading suggestions\<close>

text \<open>
  A click in the suggestions panel lands outside every button or on a button with its
  classes and its \<^verbatim>\<open>data-index\<close> read by \<^verbatim>\<open>parseInt\<close> (\<open>- 1\<close> when there is none).
\<close>

datatype clickTarget = NoButton | Button "string list" int

text \<open>\<^verbatim>\<open>xs.splice(index, 1)\<close>: a negative index counts from the end.\<close>

definition splice1 :: "int \<Rightarrow> 'a list \<Rightarrow> 'a list" where
  "splice1 index xs =
     (let n = int (length xs);
          start = nat (if index < 0 then max (n + index) 0 else min index n)
      in take start xs @ drop (Suc start) xs)"

definition handleSuggestionClick :: "env \<Rightarrow> clickTarget \<Rightarrow> app \<Rightarrow> error option \<times> app" where
  "handleSuggestionClick E target s =
     (case target of
        NoButton \<Rightarrow> (None, s)
      | Button classes index \<Rightarrow>
          if index = - 1 then (None, s)
          else if ''accept'' \<in> set classes then
            (if 0 \<le> index \<and> index < int (length (analysisSuggestions s)) then
               (let sg = analysisSuggestions s ! nat index;
                    s1 = set_innerHTML E
                           (replace (serializeHTML E (writingEditor s)) (issue sg)
                              (''<strong>'' @ suggestion sg @ ''</strong>'')) s
                in (None, s1\<lparr>analysisSuggestions := splice1 index (analysisSuggestions s1)\<rparr>))
             else (Some TypeError, s))
          else (None, s\<lparr>analysisSuggestions := splice1 index (analysisSuggestions s)\<rparr>))"

section \<open>Similarity check\<close>

definition allSourcesText :: "KnowledgeSource list \<Rightarrow> string" where
  "allSourcesText ks =
     join (LF @ LF)
       (map (\<lambda>(i, src). ''--- SOURCE '' @ toString (i + 1) @ '': '' @ fileName src @ '' ---'' @ LF
                        @ fullText src)
          (zip [0..<length ks] ks))"

definition checkPrompt :: "string \<Rightarrow> string \<Rightarrow> string" where
  "checkPrompt draftText sources =
     ''You are a plagiarism detection expert. Analyze the '' @ DQ @ ''DRAFT TEXT'' @ DQ @
     '' below. Compare it against all the provided '' @ DQ @ ''SOURCE DOCUMENTS'' @ DQ @ ''.'' @ LF @
     ''    Identify every sentence in the draft that is a direct copy or a very close paraphrase of any part of any source document.'' @ LF @
     ''    For each match you find, generate a rewritten suggestion that maintains the original meaning but uses a different structure and vocabulary.'' @ LF @
     ''    Respond with a single JSON array. Each object in the array must contain:'' @ LF @
     ''    1. '' @ DQ @ ''original_sentence'' @ DQ @ '': The exact sentence from the draft that is too similar.'' @ LF @
     ''    2. '' @ DQ @ ''similar_passage_from_source'' @ DQ @ '': The corresponding passage from the source document.'' @ LF @
     ''    3. '' @ DQ @ ''source_filename'' @ DQ @ '': The filename of the source document it matches.'' @ LF @
     ''    4. '' @ DQ @ ''rewritten_suggestion'' @ DQ @ '': Your rewritten version of the sentence.'' @ LF @
     ''    If no similar sentences are found, return an empty array.'' @ LF @ LF @
     ''    DRAFT TEXT:'' @ LF @
     ''    '' @ DQ @ draftText @ DQ @ LF @ LF @
     ''    SOURCE DOCUMENTS:'' @ LF @
     ''    '' @ sources @ LF @ ''    ''"

definition highlightResult :: "node list \<Rightarrow> SimilarityJson \<Rightarrow> node list" where
  "highlightResult editor result =
     highlightText (original_sentence result)
       (similar_passage_from_source result @ '' (from '' @ source_filename result @ '')'')
       (rewritten_suggestion result) editor"

definition handleSimilarityCheck :: "env \<Rightarrow> app \<Rightarrow> app" where
  "handleSimilarityCheck E s =
     (let draftText = innerText E (writingEditor s)
      in if length (trim draftText) < 50 then
           alert ''Please write more text before checking for similarity.'' s
         else
           (let s1 = setLoading True ''Checking for similarity...'' s;
                s2 = removeHighlights s1;
                (simResponse, s3) =
                   ai_generateContent E
                     (checkPrompt draftText (allSourcesText (knowledgeSources s2))) s2;
                s4 = (case Option.bind simResponse (JSON_parse_similarity E) of
                        None \<Rightarrow>
                          alert ''An error occurred during the similarity check. Please try again.'' s3
                      | Some results \<Rightarrow>
                          if length results = 0 then alert ''No significant similarities found.'' s3
                          else
                            alert (''Found '' @ toString (length results) @
                                   '' potential similarities. Click on the highlighted text to review.'')
                              (s3\<lparr>writingEditor := foldl highlightResult (writingEditor s3) results\<rparr>))
            in setLoading False ''Processing...'' s4))"

section \<open>Observing the editor\<close>

text \<open>
  Two readings of the editor in document order.  \<open>linear\<close> lists its text nodes and the
  opening and closing of its elements.  \<open>stream\<close> lists its characters instead of its
  text nodes, so it does not change when text nodes are split or merged.  \<open>around p\<close> is
  the stream of what precedes and of what follows the node at path \<open>p\<close>, with that node.
  \<open>textOf\<close> is the text in a list of tokens.
\<close>

datatype token = Txt string | Open string "string list" "(string \<times> string) list" | Close

fun tokenText :: "token \<Rightarrow> string" where
  "tokenText (Txt t) = t"
| "tokenText (Open tg cl ds) = []"
| "tokenText Close = []"

definition textOf :: "token list \<Rightarrow> string" where
  "textOf toks = concat (map tokenText toks)"

fun linear :: "node list \<Rightarrow> token list" where
  "linear [] = []"
| "linear (TextNode t # ns) = Txt t # linear ns"
| "linear (Element tg cl ds kids # ns) = Open tg cl ds # linear kids @ Close # linear ns"

fun stream :: "node list \<Rightarrow> token list" where
  "stream [] = []"
| "stream (TextNode t # ns) = map (\<lambda>c. Txt [c]) t @ stream ns"
| "stream (Element tg cl ds kids # ns) = Open tg cl ds # stream kids @ Close # stream ns"

fun around :: "nat list \<Rightarrow> node list \<Rightarrow> (token list \<times> node \<times> token list) option" where
  "around [] ns = None"
| "around [i] ns =
     (if i < length ns then Some (stream (take i ns), ns ! i, stream (drop (Suc i) ns)) else None)"
| "around (i # j # p) ns =
     (if i < length ns then
        (case ns ! i of
           Element tg cl ds kids \<Rightarrow>
             map_option (\<lambda>(a, n, b). (stream (take i ns) @ Open tg cl ds # a, n,
                                       b @ Close # stream (drop (Suc i) ns)))
               (around (j # p) kids)
         | TextNode t \<Rightarrow> None)
      else None)"

text \<open>
  \<open>wrapped s orig sg before after\<close>: of the two linear readings, \<open>after\<close> is \<open>before\<close> with
  the first occurrence of \<open>s\<close> in the first text node that contains \<open>s\<close> cut out of that
  node and put in a highlight span that carries \<open>orig\<close> and \<open>sg\<close>.
\<close>

definition wrapped :: "string \<Rightarrow> string \<Rightarrow> string \<Rightarrow> token list \<Rightarrow> token list \<Rightarrow> bool" where
  "wrapped s orig sg before after =
     (\<exists>A t B pre post.
        before = A @ Txt t # B
      \<and> (\<forall>u. Txt u \<in> set A \<longrightarrow> \<not> sublist s u)
      \<and> t = pre @ s @ post
      \<and> (\<forall>j<length pre. \<not> prefix s (drop j t))
      \<and> after = A @ Txt pre
                  # Open ''span'' [''similarity-highlight''] [(''original'', orig), (''suggestion'', sg)]
                  # (if s = [] then [] else [Txt s]) @ Close # Txt post # B)"

section \<open>Describing a detailed run\<close>

text \<open>
  Notions used to state what a run of the detailed pipeline leaves behind.
  \<open>cumulative parts ts\<close> lists the drafts obtained by adding the texts \<open>ts\<close> one by one
  to the parts already written.  \<open>themeReplies\<close> lists the service's responses to the
  theme prompts when the first of them is call number \<open>c\<close>.  \<open>untouched s s'\<close> says that
  \<open>s'\<close> differs from \<open>s\<close> at most in the loader, the progress log, the output pane, the
  draft history and the log of calls.
\<close>

fun cumulative :: "string list \<Rightarrow> string list \<Rightarrow> string list" where
  "cumulative parts [] = []"
| "cumulative parts (t # ts) = join (LF @ LF) (parts @ [t]) # cumulative (parts @ [t]) ts"

definition themeReplies :: "env \<Rightarrow> nat \<Rightarrow> string \<Rightarrow> string \<Rightarrow> string list \<Rightarrow> string option list" where
  "themeReplies E c topic ctx ths =
     map (\<lambda>(n, theme). generateContent E n (themePrompt theme topic ctx)) (enumerate c ths)"

text \<open>
  \<open>stageSucceeds E c n prompt\<close>: call number \<open>n\<close>, made with \<open>prompt\<close> in a run whose first
  call has number \<open>c\<close>, gives its stage what it needs: a response, which for the first call
  must parse as an outline.
\<close>

definition stageSucceeds :: "env \<Rightarrow> nat \<Rightarrow> nat \<Rightarrow> string \<Rightarrow> bool" where
  "stageSucceeds E c n prompt =
     (case generateContent E n prompt of
        None \<Rightarrow> False
      | Some t \<Rightarrow> n \<noteq> c \<or> JSON_parse_outline E t \<noteq> None)"

text \<open>
  \<open>runSummary E c r ps vs\<close> relates the outcome \<open>r\<close> of a run that started at call number
  \<open>c\<close> to the prompts \<open>ps\<close> it sent and the versions \<open>vs\<close> it appended: every call but the
  last succeeded, the last succeeded exactly when nothing was thrown, there is one version
  per successful call, the first version is the outline, the second the introduction, and
  each later one is the one before it, a blank line, and the response to the call of its
  stage.
\<close>

definition runSummary :: "env \<Rightarrow> nat \<Rightarrow> error option \<Rightarrow> string list \<Rightarrow> string list \<Rightarrow> bool" where
  "runSummary E c r ps vs =
     (ps \<noteq> []
      \<and> (\<forall>j \<in> {..<length ps - 1}. stageSucceeds E c (c + j) (ps ! j))
      \<and> ((r = None) = stageSucceeds E c (c + (length ps - 1)) (ps ! (length ps - 1)))
      \<and> length vs = (if r = None then length ps else length ps - 1)
      \<and> (0 < length vs \<longrightarrow>
           vs ! 0 = outlineHtml (the (JSON_parse_outline E (the (generateContent E c (ps ! 0))))))
      \<and> (1 < length vs \<longrightarrow> vs ! 1 = the (generateContent E (c + 1) (ps ! 1)))
      \<and> (\<forall>i \<in> {2..<length vs}.
           vs ! i = vs ! (i - 1) @ LF @ LF @ the (generateContent E (c + i) (ps ! i))))"

definition untouched :: "app \<Rightarrow> app \<Rightarrow> bool" where
  "untouched s s' =
     (knowledgeSources s' = knowledgeSources s \<and> currentFileName s' = currentFileName s \<and>
      chat s' = chat s \<and> analysisSuggestions s' = analysisSuggestions s \<and>
      activeSimilarityHighlight s' = activeSimilarityHighlight s \<and>
      articleInput s' = articleInput s \<and> fileInput s' = fileInput s \<and>
      fileNameDisplay s' = fileNameDisplay s \<and> reviewTopicInput s' = reviewTopicInput s \<and>
      reviewLength s' = reviewLength s \<and> knowledgeSectionsHidden s' = knowledgeSectionsHidden s \<and>
      reviewGenerationProgressHidden s' = reviewGenerationProgressHidden s \<and>
      draftVersionControls s' = draftVersionControls s \<and>
      writingAssistantSectionHidden s' = writingAssistantSectionHidden s \<and>
      writingEditor s' = writingEditor s \<and>
      referencesContainerHidden s' = referencesContainerHidden s \<and>
      referencesList s' = referencesList s \<and> tooltipHidden s' = tooltipHidden s \<and>
      alerts s' = alerts s)"

section \<open>Example environment and states\<close>

text \<open>
  A small environment for running the definitions: the model answers call number \<open>n\<close>
  with a sentence that names \<open>n\<close>, except call number \<open>k\<close>, which is rejected; every response parses; markup is
  read back as a single text node and written out as the text it contains; strings are
  compared by their character codes.
\<close>

definition codeUnitCompare :: "string \<Rightarrow> string \<Rightarrow> int" where
  "codeUnitCompare a b = (if a < b then - 1 else if a = b then 0 else 1)"

definition exampleEnv :: "nat \<Rightarrow> env" where
  "exampleEnv k =
     \<lparr>generateContent =
        (\<lambda>n prompt. if n = k then None
                    else Some (''Part '' @ toString n @ '' cites (Chen, 2019).'')),
      JSON_parse_document = (\<lambda>t. Some \<lparr>json_author = ''Chen'', json_year = ''2019'',
                                         json_summary = ''On cats.'', json_entities = [''cat'']\<rparr>),
      JSON_parse_outline = (\<lambda>t. Some \<lparr>introduction = ''Scope'', themes = [''Sound'', ''Sleep''],
                                        conclusion = ''Gaps''\<rparr>),
      JSON_parse_similarity = (\<lambda>t. Some []),
      parseHTML = (\<lambda>markup. [TextNode markup]),
      serializeHTML = textContent,
      innerText = textContent,
      localeCompare = codeUnitCompare\<rparr>"

definition docB :: KnowledgeSource where
  "docB = \<lparr>fileName = ''b.pdf'', author = ''Chen'', year = ''2019'', summary = ''On cats.'',
           entities = [''cat''], fullText = ''Cats purr.''\<rparr>"

definition docA :: KnowledgeSource where
  "docA = \<lparr>fileName = ''a.txt'', author = ''Lopez'', year = ''2020'', summary = ''On dogs.'',
           entities = [''dog''], fullText = ''Dogs bark.''\<rparr>"

text \<open>The state of the module when it has loaded.\<close>

definition initialState :: app where
  "initialState =
     \<lparr>isLoading = False, loaderText = ''Processing...'', knowledgeSources = [],
      currentFileName = [], draftHistory = [], chat = None, analysisSuggestions = [],
      activeSimilarityHighlight = None, articleInput = [], fileInput = [],
      fileNameDisplay = [], reviewTopicInput = [], reviewLength = ''detailed'',
      knowledgeSectionsHidden = True, reviewGenerationProgressHidden = True,
      reviewProgressLog = [], reviewDraftOutput = [], draftVersionControls = [],
      writingAssistantSectionHidden = True, writingEditor = [],
      referencesContainerHidden = True, referencesList = [], tooltipHidden = True,
      alerts = [], calls = []\<rparr>"

definition twoDocs :: app where
  "twoDocs = initialState\<lparr>knowledgeSources := [docA, docB],
                          chat := Some (Chat ''Answer from the knowledge base.'' [])\<rparr>"

text \<open>
  A draft under proofreading with two pending suggestions.  The second one proposes to
  write the dollar sign in quotes, so its text contains a dollar sign followed by a quote.
\<close>

definition proofreading :: app where
  "proofreading =
     initialState
       \<lparr>writingEditor := [TextNode ''Teh price: use the dollar sign here''],
        analysisSuggestions :=
          [\<lparr>category = ''Spelling'', issue = ''Teh'', suggestion = ''The'',
            explanation = ''Misspelt article.''\<rparr>,
           \<lparr>category = ''Style'', issue = ''dollar sign'',
            suggestion = [CHR 0x27] @ ''$'' @ [CHR 0x27] @ '' sign'',
            explanation = ''Name the symbol itself.''\<rparr>,
           \<lparr>category = ''Clarity'', issue = ''the cost'', suggestion = ''the price'',
            explanation = ''Use one term.''\<rparr>]\<rparr>"

text \<open>
  A paragraph in which a proofreading suggestion has been accepted, so that one of its
  words is in a \<^verbatim>\<open>strong\<close> element, followed by a plain paragraph.
\<close>

definition draftWithBold :: "node list" where
  "draftWithBold =
     [Element ''div'' [] [] [TextNode ''Cats '', Element ''strong'' [] [] [TextNode ''are''],
                            TextNode '' nice.''],
      Element ''div'' [] [] [TextNode ''Dogs bark. Cats purr. Dogs bark.'']]"

text \<open>
  The same draft after one similarity match has been highlighted and clicked: the active
  highlight is the second child of the second paragraph.
\<close>

definition reviewing :: app where
  "reviewing =
     initialState
       \<lparr>writingEditor :=
          highlightText ''Dogs bark.'' ''Dogs bark (from a.txt)'' ''Dogs make noise.'' draftWithBold,
        activeSimilarityHighlight := Some (InEditor [1, 1]),
        tooltipHidden := False\<rparr>"

text \<open>Two text files that hold nothing but white space, chosen together.\<close>

definition blankFiles :: "selectedFile list" where
  "blankFiles =
     [\<lparr>file_name = ''blank1.txt'', file_type = ''text/plain'', file_text = Some ''  '',
       file_pdf = None\<rparr>,
      \<lparr>file_name = ''blank2.txt'', file_type = ''text/plain'', file_text = Some [CHR 0x0A],
       file_pdf = None\<rparr>]"

text \<open>
  Reading \<^verbatim>\<open>innerHTML\<close> escapes the text: in a text node the ampersand, the no-break space
  and the angle brackets are written as character references.  \<open>serializeNodes\<close> writes
  markup in this way for elements that have an end tag, with their classes and data
  attributes (whose names are taken to be in lower case).  \<open>escapingEnv\<close> is the example
  environment with this serializer.
\<close>

definition escapeText :: "string \<Rightarrow> string" where
  "escapeText t =
     concat (map (\<lambda>c. if c = CHR ''&'' then ''&amp;''
                       else if c = CHR 0xA0 then ''&nbsp;''
                       else if c = CHR ''<'' then ''&lt;''
                       else if c = CHR ''>'' then ''&gt;''
                       else [c]) t)"

definition escapeAttribute :: "string \<Rightarrow> string" where
  "escapeAttribute v =
     concat (map (\<lambda>c. if c = CHR ''&'' then ''&amp;''
                       else if c = CHR 0xA0 then ''&nbsp;''
                       else if c = CHR ''<'' then ''&lt;''
                       else if c = CHR ''>'' then ''&gt;''
                       else if c = CHR 0x22 then ''&quot;''
                       else [c]) v)"

fun serializeNodes :: "node list \<Rightarrow> string" where
  "serializeNodes [] = []"
| "serializeNodes (TextNode t # ns) = escapeText t @ serializeNodes ns"
| "serializeNodes (Element tg cl ds kids # ns) =
     ''<'' @ tg
     @ (if cl = [] then [] else '' class='' @ DQ @ escapeAttribute (join '' '' cl) @ DQ)
     @ concat (map (\<lambda>(k, v). '' data-'' @ k @ ''='' @ DQ @ escapeAttribute v @ DQ) ds)
     @ ''>'' @ serializeNodes kids @ ''</'' @ tg @ ''>'' @ serializeNodes ns"

definition escapingEnv :: env where
  "escapingEnv = (exampleEnv 7)\<lparr>serializeHTML := serializeNodes\<rparr>"




section \<open>Setup\<close>

text \<open>The equation of \<open>toString\<close> is unfolded on demand only: it applies to every argument.\<close>

declare toString.simps [simp del]

section \<open>Ingestion: duplicates and failures\<close>

lemma list_ex_fileName:
  "list_ex (\<lambda>src. fileName src = fname) ks \<longleftrightarrow> fname \<in> fileName ` set ks"
  by (auto simp: list_ex_iff)

text \<open>
  Claim C2.  When the identifier of an ingestion attempt is already the identifier of a
  stored document, \<open>analyzeAndStoreDocument\<close> returns at once: the whole state is the
  one it started from, so the store has the same length and contents, and the log of calls
  shows that no extraction call was made.
\<close>

theorem duplicate_ingestion_noop:
  assumes "fname \<in> fileName ` set (knowledgeSources s)"
  shows "analyzeAndStoreDocument E fname articleText s = (None, s)
       \<and> knowledgeSources (snd (analyzeAndStoreDocument E fname articleText s)) = knowledgeSources s
       \<and> calls (snd (analyzeAndStoreDocument E fname articleText s)) = calls s"
  using assms by (simp add: analyzeAndStoreDocument_def list_ex_fileName)

theorem duplicate_ingestion_noop_witness:
  "''b.pdf'' \<in> fileName ` set (knowledgeSources twoDocs)
   \<and> analyzeAndStoreDocument (exampleEnv 7) ''b.pdf'' ''Other text'' twoDocs = (None, twoDocs)
   \<and> length (knowledgeSources (snd (analyzeAndStoreDocument (exampleEnv 7) ''b.pdf'' ''Other text'' twoDocs))) = 2
   \<and> calls (snd (analyzeAndStoreDocument (exampleEnv 7) ''b.pdf'' ''Other text'' twoDocs)) = []"
proof -
  have dup: "''b.pdf'' \<in> fileName ` set (knowledgeSources twoDocs)"
    by (simp add: twoDocs_def initialState_def docA_def docB_def)
  from duplicate_ingestion_noop [OF dup, of "exampleEnv 7" "''Other text''"] dup
  show ?thesis by (simp add: twoDocs_def initialState_def)
qed

text \<open>
  Claim C10.  For an identifier that is not yet in the store, the chat session is set to
  \<open>null\<close> and then exactly one call, the extraction call, is issued.  When that call is
  rejected or its response does not parse, an error is thrown and the state differs from the
  initial one only in the discarded chat session and the logged call: the store is
  unchanged.  When it succeeds, one document is appended to the store.
\<close>

theorem failed_ingestion_discards_chat_only:
  assumes "fname \<notin> fileName ` set (knowledgeSources s)"
  shows "chat (snd (analyzeAndStoreDocument E fname articleText s)) = None
       \<and> calls (snd (analyzeAndStoreDocument E fname articleText s))
           = calls s @ [analysisPrompt articleText]
       \<and> (Option.bind (generateContent E (length (calls s)) (analysisPrompt articleText))
            (JSON_parse_document E) = None \<longrightarrow>
          analyzeAndStoreDocument E fname articleText s
            = (Some (Error (''Failed to analyze '' @ fname @ ''.'')),
               s\<lparr>chat := None, calls := calls s @ [analysisPrompt articleText]\<rparr>)
          \<and> knowledgeSources (snd (analyzeAndStoreDocument E fname articleText s))
              = knowledgeSources s)
       \<and> (\<forall>p. Option.bind (generateContent E (length (calls s)) (analysisPrompt articleText))
            (JSON_parse_document E) = Some p \<longrightarrow>
          fst (analyzeAndStoreDocument E fname articleText s) = None
          \<and> knowledgeSources (snd (analyzeAndStoreDocument E fname articleText s))
              = knowledgeSources s @
                  [\<lparr>fileName = fname, author = json_author p, year = json_year p,
                    summary = json_summary p, entities = json_entities p,
                    fullText = articleText\<rparr>])"
  using assms
  by (auto simp: analyzeAndStoreDocument_def list_ex_fileName ai_generateContent_def
        renderKnowledgeSources_def Let_def split: option.splits)

theorem failed_ingestion_discards_chat_only_witness:
  "''c.md'' \<notin> fileName ` set (knowledgeSources twoDocs)
   \<and> chat twoDocs \<noteq> None
   \<and> Option.bind (generateContent (exampleEnv 0) (length (calls twoDocs)) (analysisPrompt ''Birds sing.''))
        (JSON_parse_document (exampleEnv 0)) = None
   \<and> chat (snd (analyzeAndStoreDocument (exampleEnv 0) ''c.md'' ''Birds sing.'' twoDocs)) = None
   \<and> fst (analyzeAndStoreDocument (exampleEnv 0) ''c.md'' ''Birds sing.'' twoDocs)
        = Some (Error ''Failed to analyze c.md.'')
   \<and> knowledgeSources (snd (analyzeAndStoreDocument (exampleEnv 0) ''c.md'' ''Birds sing.'' twoDocs))
        = [docA, docB]
   \<and> Option.bind (generateContent (exampleEnv 7) (length (calls twoDocs)) (analysisPrompt ''Birds sing.''))
        (JSON_parse_document (exampleEnv 7)) \<noteq> None
   \<and> length (knowledgeSources (snd (analyzeAndStoreDocument (exampleEnv 7) ''c.md'' ''Birds sing.'' twoDocs))) = 3"
proof -
  have fresh: "''c.md'' \<notin> fileName ` set (knowledgeSources twoDocs)"
    by (simp add: twoDocs_def initialState_def docA_def docB_def)
  have fails: "Option.bind (generateContent (exampleEnv 0) (length (calls twoDocs)) (analysisPrompt ''Birds sing.''))
        (JSON_parse_document (exampleEnv 0)) = None"
    by (simp add: twoDocs_def initialState_def exampleEnv_def)
  have parses: "Option.bind (generateContent (exampleEnv 7) (length (calls twoDocs)) (analysisPrompt ''Birds sing.''))
        (JSON_parse_document (exampleEnv 7))
      = Some \<lparr>json_author = ''Chen'', json_year = ''2019'', json_summary = ''On cats.'',
              json_entities = [''cat'']\<rparr>"
    by (simp add: twoDocs_def initialState_def exampleEnv_def)
  note a = failed_ingestion_discards_chat_only [OF fresh, of "exampleEnv 0" "''Birds sing.''"]
  note b = failed_ingestion_discards_chat_only [OF fresh, of "exampleEnv 7" "''Birds sing.''"]
  have c: "chat twoDocs \<noteq> None" by (simp add: twoDocs_def)
  have d: "knowledgeSources twoDocs = [docA, docB]" by (simp add: twoDocs_def)
  from a b fresh fails parses c d show ?thesis by simp
qed

section \<open>Draft viewer labels\<close>

text \<open>
  Claim C8, as the code has it.  For a non-empty history there is one button per version,
  in order; exactly one is active, the last; the first is labelled \<^verbatim>\<open>Outline\<close>.  When there
  are at least two versions, the last is labelled \<^verbatim>\<open>Final\<close> and each one in between is
  labelled \<^verbatim>\<open>Step i\<close>, with \<open>i\<close> its index in the history (the first version after the
  outline is step 1).
\<close>

theorem draft_viewer_labels:
  assumes "draftHistory s \<noteq> []"
  shows "length (draftVersionControls (renderDraftViewer s)) = length (draftHistory s)
       \<and> (\<forall>i < length (draftHistory s).
            dataset_index (draftVersionControls (renderDraftViewer s) ! i) = i
          \<and> (active (draftVersionControls (renderDraftViewer s) ! i) \<longleftrightarrow> i = length (draftHistory s) - 1))
       \<and> textContent_of (draftVersionControls (renderDraftViewer s) ! 0) = ''Outline''
       \<and> (2 \<le> length (draftHistory s) \<longrightarrow>
            textContent_of (last (draftVersionControls (renderDraftViewer s))) = ''Final''
          \<and> (\<forall>i. 0 < i \<and> i < length (draftHistory s) - 1 \<longrightarrow>
                textContent_of (draftVersionControls (renderDraftViewer s) ! i) = ''Step '' @ toString i))"
proof -
  let ?n = "length (draftHistory s)"
  from assms have n: "0 < ?n" by simp
  show ?thesis using n
    by (auto simp: renderDraftViewer_def Let_def nth_list_update last_conv_nth)
qed

lemma toString_examples:
  "toString 0 = ''0''" "toString 7 = ''7''" "toString 12 = ''12''" "toString 305 = ''305''"
  by (simp_all add: toString.simps)

text \<open>
  With a single version, which is what concise mode produces, the first branch of the
  labelling wins: the last entry is labelled \<^verbatim>\<open>Outline\<close>, not \<^verbatim>\<open>Final\<close>.
\<close>

theorem single_version_labelled_outline:
  "draftHistory (initialState\<lparr>draftHistory := [''A concise review.'']\<rparr>) \<noteq> []
   \<and> textContent_of (last (draftVersionControls
        (renderDraftViewer (initialState\<lparr>draftHistory := [''A concise review.'']\<rparr>)))) = ''Outline''
   \<and> textContent_of (last (draftVersionControls
        (renderDraftViewer (initialState\<lparr>draftHistory := [''A concise review.'']\<rparr>)))) \<noteq> ''Final''"
  by (simp add: renderDraftViewer_def initialState_def)

theorem draft_viewer_labels_witness:
  "draftHistory (initialState\<lparr>draftHistory := [''o'', ''a'', ''b'', ''c'']\<rparr>) \<noteq> []
   \<and> 2 \<le> length (draftHistory (initialState\<lparr>draftHistory := [''o'', ''a'', ''b'', ''c'']\<rparr>))
   \<and> textContent_of (last (draftVersionControls (renderDraftViewer (initialState\<lparr>draftHistory := [''o'', ''a'', ''b'', ''c'']\<rparr>)))) = ''Final''
   \<and> map textContent_of (draftVersionControls (renderDraftViewer (initialState\<lparr>draftHistory := [''o'', ''a'', ''b'', ''c'']\<rparr>)))
       = [''Outline'', ''Step 1'', ''Step 2'', ''Final'']
   \<and> map active (draftVersionControls (renderDraftViewer (initialState\<lparr>draftHistory := [''o'', ''a'', ''b'', ''c'']\<rparr>)))
       = [False, False, False, True]"
proof -
  let ?s = "initialState\<lparr>draftHistory := [''o'', ''a'', ''b'', ''c'']\<rparr>"
  have ne: "draftHistory ?s \<noteq> []" by simp
  have two: "2 \<le> length (draftHistory ?s)" by simp
  from draft_viewer_labels [OF ne] two
  have fin: "textContent_of (last (draftVersionControls (renderDraftViewer ?s))) = ''Final''"
    by blast
  have ev: "map textContent_of (draftVersionControls (renderDraftViewer ?s))
       = [''Outline'', ''Step 1'', ''Step 2'', ''Final'']
     \<and> map active (draftVersionControls (renderDraftViewer ?s)) = [False, False, False, True]"
    by code_simp
  from ne two fin ev show ?thesis by blast
qed

section \<open>Empty input\<close>

text \<open>
  Claim C9, as the code has it.  Each of the three handlers checks its input before anything
  else and returns when the check fails, so the log of calls is the one it started with.
  Ingestion from the text area and the similarity check report the rejection with an alert
  and change nothing else.  Review generation with an empty topic returns without any
  message: the state is the one it started from.
\<close>

theorem empty_input_rejected_locally:
  "(trim (articleInput s) = [] \<longrightarrow>
      handleProcessArticle E s
        = s\<lparr>alerts := alerts s @ [''Please paste text into the text area or upload a file.'']\<rparr>
      \<and> calls (handleProcessArticle E s) = calls s)
   \<and> (trim (reviewTopicInput s) = [] \<longrightarrow>
      handleGenerateReview E s = s
      \<and> calls (handleGenerateReview E s) = calls s)
   \<and> (length (trim (innerText E (writingEditor s))) < 50 \<longrightarrow>
      handleSimilarityCheck E s
        = s\<lparr>alerts := alerts s @ [''Please write more text before checking for similarity.'']\<rparr>
      \<and> calls (handleSimilarityCheck E s) = calls s)"
  by (simp add: handleProcessArticle_def handleGenerateReview_def handleSimilarityCheck_def
        alert_def Let_def)

lemma trim_examples:
  "trim ''   '' = []" "trim [CHR 0x20, CHR 0x0A, CHR 0x09] = []" "trim '' a b '' = ''a b''"
  "trim [CHR 0xA0] = []" "trim ([CHR 0xA0] @ ''a'' @ [CHR 0xA0, CHR 0x0D]) = ''a''"
  by (simp_all add: trim_def isWhiteSpace_def)

theorem empty_input_rejected_locally_witness:
  "trim (articleInput (initialState\<lparr>articleInput := [CHR 0x20, CHR 0xA0]\<rparr>)) = []
   \<and> alerts (handleProcessArticle (exampleEnv 7) (initialState\<lparr>articleInput := [CHR 0x20, CHR 0xA0]\<rparr>))
       = [''Please paste text into the text area or upload a file.'']
   \<and> calls (handleProcessArticle (exampleEnv 7) (initialState\<lparr>articleInput := [CHR 0x20, CHR 0xA0]\<rparr>)) = []
   \<and> trim (reviewTopicInput (twoDocs\<lparr>reviewTopicInput := ''  ''\<rparr>)) = []
   \<and> handleGenerateReview (exampleEnv 7) (twoDocs\<lparr>reviewTopicInput := ''  ''\<rparr>)
       = twoDocs\<lparr>reviewTopicInput := ''  ''\<rparr>
   \<and> length (trim (innerText (exampleEnv 7)
         (writingEditor (twoDocs\<lparr>writingEditor := [TextNode ''Too short.'']\<rparr>)))) < 50
   \<and> alerts (handleSimilarityCheck (exampleEnv 7) (twoDocs\<lparr>writingEditor := [TextNode ''Too short.'']\<rparr>))
       = [''Please write more text before checking for similarity.'']
   \<and> calls (handleSimilarityCheck (exampleEnv 7) (twoDocs\<lparr>writingEditor := [TextNode ''Too short.'']\<rparr>)) = []"
proof -
  let ?a = "initialState\<lparr>articleInput := [CHR 0x20, CHR 0xA0]\<rparr>"
  let ?b = "twoDocs\<lparr>reviewTopicInput := ''  ''\<rparr>"
  let ?c = "twoDocs\<lparr>writingEditor := [TextNode ''Too short.'']\<rparr>"
  have ha: "trim (articleInput ?a) = []" by (simp add: trim_def isWhiteSpace_def)
  have hb: "trim (reviewTopicInput ?b) = []" by (simp add: trim_def isWhiteSpace_def)
  have hc: "length (trim (innerText (exampleEnv 7) (writingEditor ?c))) < 50"
    by (simp add: exampleEnv_def trim_def isWhiteSpace_def)
  note t = empty_input_rejected_locally
  from t [of ?a "exampleEnv 7"] ha
  have ca: "handleProcessArticle (exampleEnv 7) ?a
              = ?a\<lparr>alerts := alerts ?a @ [''Please paste text into the text area or upload a file.'']\<rparr>"
    by blast
  from t [of ?b "exampleEnv 7"] hb
  have cb: "handleGenerateReview (exampleEnv 7) ?b = ?b" by blast
  from t [of ?c "exampleEnv 7"] hc
  have cc: "handleSimilarityCheck (exampleEnv 7) ?c
              = ?c\<lparr>alerts := alerts ?c @ [''Please write more text before checking for similarity.'']\<rparr>"
    by blast
  have ia: "alerts ?a = [] \<and> calls ?a = []" by (simp add: initialState_def)
  have ic: "alerts ?c = [] \<and> calls ?c = []" by (simp add: twoDocs_def initialState_def)
  show ?thesis using ha hb hc ia ic by (simp add: ca cb cc)
qed

text \<open>
  The rejection of an empty topic is silent: after the handler has run on a blank topic no
  alert has been shown and the progress log is empty.  When several files are chosen, their
  text is not checked: two files that hold only white space are both sent to the model and
  stored, and nothing is reported.
\<close>

theorem empty_input_silent_or_sent:
  "trim (reviewTopicInput (twoDocs\<lparr>reviewTopicInput := ''  ''\<rparr>)) = []
   \<and> alerts (handleGenerateReview (exampleEnv 7) (twoDocs\<lparr>reviewTopicInput := ''  ''\<rparr>)) = []
   \<and> reviewProgressLog (handleGenerateReview (exampleEnv 7) (twoDocs\<lparr>reviewTopicInput := ''  ''\<rparr>)) = []
   \<and> map (\<lambda>file. map_option trim (readFile file)) blankFiles = [Some [], Some []]
   \<and> length (calls (handleFileSelect (exampleEnv 7) blankFiles initialState)) = 2
   \<and> alerts (handleFileSelect (exampleEnv 7) blankFiles initialState) = []
   \<and> map fullText (knowledgeSources (handleFileSelect (exampleEnv 7) blankFiles initialState))
        = [[], []]"
  by code_simp

section \<open>The detailed pipeline, call by call\<close>

lemma join_snoc: "parts \<noteq> [] \<Longrightarrow> join sep (parts @ [x]) = join sep parts @ sep @ x"
  by (induction sep parts rule: join.induct) auto

lemma length_cumulative [simp]: "length (cumulative parts ts) = length ts"
  by (induction ts arbitrary: parts) auto

lemma nth_cumulative:
  "j < length ts \<Longrightarrow> cumulative parts ts ! j = join (LF @ LF) (parts @ take (Suc j) ts)"
proof (induction ts arbitrary: parts j)
  case Nil
  then show ?case by simp
next
  case (Cons t ts)
  then show ?case by (cases j) auto
qed

lemma cumulative_snoc:
  "cumulative parts (ts @ [t]) = cumulative parts ts @ [join (LF @ LF) (parts @ ts @ [t])]"
  by (induction ts arbitrary: parts) auto

lemma untouched_refl [simp]: "untouched s s"
  by (simp add: untouched_def)

lemma untouched_trans: "untouched a b \<Longrightarrow> untouched b c \<Longrightarrow> untouched a c"
  by (simp add: untouched_def)

lemma themeBody_None:
  "generateContent E (length (calls s)) (themePrompt theme topic ctx) = None \<Longrightarrow>
   themeBody E topic ctx i theme parts s = (r, s') \<Longrightarrow>
   r = None \<and> calls s' = calls s @ [themePrompt theme topic ctx]
   \<and> draftHistory s' = draftHistory s \<and> untouched s s'"
  by (auto simp: themeBody_def ai_generateContent_def setLoading_def addProgressLog_def
        untouched_def Let_def)

lemma themeBody_Some:
  "generateContent E (length (calls s)) (themePrompt theme topic ctx) = Some t \<Longrightarrow>
   themeBody E topic ctx i theme parts s = (r, s') \<Longrightarrow>
   r = Some (parts @ [t]) \<and> calls s' = calls s @ [themePrompt theme topic ctx]
   \<and> draftHistory s' = draftHistory s @ [join (LF @ LF) (parts @ [t])] \<and> untouched s s'"
  by (auto simp: themeBody_def ai_generateContent_def setLoading_def addProgressLog_def
        pushDraft_def untouched_def Let_def)

lemma themeLoop_trace:
  "themeLoop E topic ctx i ths parts s = (r, parts', s') \<Longrightarrow>
   parts' = parts @ map the (takeWhile (\<lambda>x. x \<noteq> None) (themeReplies E (length (calls s)) topic ctx ths))
   \<and> (r = None \<longleftrightarrow>
        length (takeWhile (\<lambda>x. x \<noteq> None) (themeReplies E (length (calls s)) topic ctx ths)) = length ths)
   \<and> (r = None \<or> r = Some ApiError)
   \<and> calls s' = calls s @ map (\<lambda>th. themePrompt th topic ctx)
        (take (Suc (length (takeWhile (\<lambda>x. x \<noteq> None) (themeReplies E (length (calls s)) topic ctx ths)))) ths)
   \<and> draftHistory s' = draftHistory s @ cumulative parts
        (map the (takeWhile (\<lambda>x. x \<noteq> None) (themeReplies E (length (calls s)) topic ctx ths)))
   \<and> untouched s s'"
proof (induction ths arbitrary: i parts s)
  case Nil
  then show ?case by (simp add: themeReplies_def)
next
  case (Cons th rest)
  show ?case
  proof (cases "generateContent E (length (calls s)) (themePrompt th topic ctx)")
    case None
    obtain b s1 where tb: "themeBody E topic ctx i th parts s = (b, s1)" by force
    from themeBody_None [OF None tb] Cons.prems tb None
    show ?thesis by (auto simp: themeReplies_def)
  next
    case (Some t)
    obtain b s1 where tb: "themeBody E topic ctx i th parts s = (b, s1)" by force
    note f = themeBody_Some [OF Some tb]
    from Cons.prems tb f
    have rec: "themeLoop E topic ctx (Suc i) rest (parts @ [t]) s1 = (r, parts', s')" by simp
    have len: "length (calls s1) = Suc (length (calls s))" using f by simp
    note ih = Cons.IH [OF rec, unfolded len]
    have rep: "themeReplies E (length (calls s)) topic ctx (th # rest)
        = Some t # themeReplies E (Suc (length (calls s))) topic ctx rest"
      using Some by (simp add: themeReplies_def)
    from ih f show ?thesis
      by (auto simp: rep intro: untouched_trans)
  qed
qed


lemma gdr_outline_failed:
  assumes "Option.bind (generateContent E (length (calls s)) (outlinePrompt topic ctx))
             (JSON_parse_outline E) = None"
      and "generateDetailedReview E topic ctx s = (e, s')"
  shows "e \<noteq> None \<and> calls s' = calls s @ [outlinePrompt topic ctx]
       \<and> draftHistory s' = draftHistory s \<and> untouched s s'"
  using assms
  by (auto simp: generateDetailedReview_def ai_generateContent_def setLoading_def
        addProgressLog_def untouched_def Let_def split: option.splits)

lemma gdr_intro_rejected:
  assumes "generateContent E (length (calls s)) (outlinePrompt topic ctx) = Some ot"
      and "JSON_parse_outline E ot = Some outline"
      and "generateContent E (Suc (length (calls s))) (introPrompt topic (introduction outline) ctx) = None"
      and "generateDetailedReview E topic ctx s = (e, s')"
  shows "e = Some ApiError
       \<and> calls s' = calls s @ [outlinePrompt topic ctx, introPrompt topic (introduction outline) ctx]
       \<and> draftHistory s' = draftHistory s @ [outlineHtml outline] \<and> untouched s s'"
  using assms
  by (auto simp: generateDetailedReview_def ai_generateContent_def setLoading_def
        addProgressLog_def untouched_def Let_def split: option.splits)

lemma gdr_intro_written:
  assumes o1: "generateContent E (length (calls s)) (outlinePrompt topic ctx) = Some ot"
      and o2: "JSON_parse_outline E ot = Some outline"
      and i: "generateContent E (Suc (length (calls s))) (introPrompt topic (introduction outline) ctx) = Some it"
      and run: "generateDetailedReview E topic ctx s = (e, s')"
  shows "(length (takeWhile (\<lambda>x. x \<noteq> None) (themeReplies E (length (calls s) + 2) topic ctx (themes outline)))
            < length (themes outline) \<longrightarrow>
          e = Some ApiError
          \<and> calls s' = calls s @ [outlinePrompt topic ctx, introPrompt topic (introduction outline) ctx]
               @ map (\<lambda>th. themePrompt th topic ctx)
                   (take (Suc (length (takeWhile (\<lambda>x. x \<noteq> None)
                      (themeReplies E (length (calls s) + 2) topic ctx (themes outline))))) (themes outline))
          \<and> draftHistory s' = draftHistory s @ [outlineHtml outline, it]
               @ cumulative [it] (map the (takeWhile (\<lambda>x. x \<noteq> None)
                      (themeReplies E (length (calls s) + 2) topic ctx (themes outline))))
          \<and> untouched s s')
       \<and> (length (takeWhile (\<lambda>x. x \<noteq> None) (themeReplies E (length (calls s) + 2) topic ctx (themes outline)))
            = length (themes outline) \<longrightarrow>
          calls s' = calls s @ [outlinePrompt topic ctx, introPrompt topic (introduction outline) ctx]
               @ map (\<lambda>th. themePrompt th topic ctx) (themes outline)
               @ [conclusionPrompt topic (conclusion outline) ctx]
          \<and> untouched s s'
          \<and> (case generateContent E (length (calls s) + 2 + length (themes outline))
                     (conclusionPrompt topic (conclusion outline) ctx) of
                None \<Rightarrow>
                  e = Some ApiError
                  \<and> draftHistory s' = draftHistory s @ [outlineHtml outline, it]
                       @ cumulative [it] (map the (themeReplies E (length (calls s) + 2) topic ctx (themes outline)))
              | Some ct \<Rightarrow>
                  e = None
                  \<and> draftHistory s' = draftHistory s @ [outlineHtml outline, it]
                       @ cumulative [it] (map the (themeReplies E (length (calls s) + 2) topic ctx (themes outline)) @ [ct])))"
proof -
  let ?op = "outlinePrompt topic ctx"
  let ?ip = "introPrompt topic (introduction outline) ctx"
  let ?cp = "conclusionPrompt topic (conclusion outline) ctx"
  let ?N = "length (themes outline)"
  define S6 where "S6 =
     pushDraft [it]
       ((addProgressLog ''<strong>Step 2:</strong> Writing the introduction...''
          (setLoading True ''Step 2: Writing introduction...''
             (addProgressLog ''Outline created. Now writing sections...''
                ((addProgressLog ''<strong>Step 1:</strong> Creating a structured outline...''
                    (setLoading True ''Step 1: Creating a structured outline...'' s))
                   \<lparr>calls := calls s @ [?op],
                     draftHistory := draftHistory s @ [outlineHtml outline],
                     reviewDraftOutput := outlineHtml outline\<rparr>))))
        \<lparr>calls := calls s @ [?op, ?ip]\<rparr>)"
  have c6: "calls S6 = calls s @ [?op, ?ip]"
    and d6: "draftHistory S6 = draftHistory s @ [outlineHtml outline, it]"
    and u6: "untouched s S6"
    by (simp_all add: S6_def pushDraft_def addProgressLog_def setLoading_def untouched_def join.simps)
  obtain err parts s7 where tl: "themeLoop E topic ctx 0 (themes outline) [it] S6 = (err, parts, s7)"
    by (metis prod_cases3)
  have len6: "length (calls S6) = length (calls s) + 2" using c6 by simp
  note tr = themeLoop_trace [OF tl, unfolded len6]
  let ?ok = "takeWhile (\<lambda>x. x \<noteq> None) (themeReplies E (length (calls s) + 2) topic ctx (themes outline))"
  have lenrep: "length (themeReplies E (length (calls s) + 2) topic ctx (themes outline)) = ?N"
    by (simp add: themeReplies_def)
  have unf: "generateDetailedReview E topic ctx s =
      (case err of
         Some e \<Rightarrow> (Some e, s7)
       | None \<Rightarrow>
          (case generateContent E (length (calls s7)) ?cp of
             None \<Rightarrow> (Some ApiError,
                (addProgressLog (''<strong>Step '' @ toString (3 + ?N) @ '':</strong> Writing the conclusion...'')
                   (setLoading True (''Step '' @ toString (3 + ?N) @ '': Writing conclusion...'') s7))
                \<lparr>calls := calls s7 @ [?cp]\<rparr>)
           | Some ct \<Rightarrow> (None,
                pushDraft (parts @ [ct])
                  ((addProgressLog (''<strong>Step '' @ toString (3 + ?N) @ '':</strong> Writing the conclusion...'')
                     (setLoading True (''Step '' @ toString (3 + ?N) @ '': Writing conclusion...'') s7))
                  \<lparr>calls := calls s7 @ [?cp]\<rparr>))))"
    using o1 o2 i tl [unfolded S6_def]
    by (simp add: generateDetailedReview_def ai_generateContent_def Let_def
          setLoading_def addProgressLog_def pushDraft_def split: option.splits)
  show ?thesis
  proof (cases "length ?ok < ?N")
    case True
    with tr have e1: "err = Some ApiError" by auto
    from unf e1 run have "e = Some ApiError" "s' = s7" by auto
    with tr True c6 d6 u6 show ?thesis
      by (auto intro: untouched_trans)
  next
    case False
    have le: "length ?ok \<le> ?N" using length_takeWhile_le [of _ "themeReplies E (length (calls s) + 2) topic ctx (themes outline)"] lenrep
      by metis
    with False have eq: "length ?ok = ?N" by simp
    with tr have e0: "err = None" by auto
    have all: "?ok = themeReplies E (length (calls s) + 2) topic ctx (themes outline)"
      using eq lenrep by (metis takeWhile_eq_take take_all order_refl)
    have c7: "calls s7 = calls s @ [?op, ?ip] @ map (\<lambda>th. themePrompt th topic ctx) (themes outline)"
      using tr eq c6 by simp
    have len7: "length (calls s7) = length (calls s) + 2 + ?N" using c7 by simp
    have d7: "draftHistory s7 = draftHistory s @ [outlineHtml outline, it]
          @ cumulative [it] (map the (themeReplies E (length (calls s) + 2) topic ctx (themes outline)))"
      using tr d6 unfolding all by simp
    have p7: "parts = [it] @ map the (themeReplies E (length (calls s) + 2) topic ctx (themes outline))"
      using tr unfolding all by simp
    have u7: "untouched s s7" using tr u6 by (auto intro: untouched_trans)
    show ?thesis
    proof (cases "generateContent E (length (calls s) + 2 + ?N) ?cp")
      case None
      with unf e0 run len7 have
        "e = Some ApiError"
        "s' = (addProgressLog (''<strong>Step '' @ toString (3 + ?N) @ '':</strong> Writing the conclusion...'')
                   (setLoading True (''Step '' @ toString (3 + ?N) @ '': Writing conclusion...'') s7))
                \<lparr>calls := calls s7 @ [?cp]\<rparr>"
        by auto
      with None eq c7 d7 u7 show ?thesis
        by (simp add: addProgressLog_def setLoading_def untouched_def)
    next
      case (Some ct)
      with unf e0 run len7 have
        "e = None"
        "s' = pushDraft (parts @ [ct])
                  ((addProgressLog (''<strong>Step '' @ toString (3 + ?N) @ '':</strong> Writing the conclusion...'')
                     (setLoading True (''Step '' @ toString (3 + ?N) @ '': Writing conclusion...'') s7))
                  \<lparr>calls := calls s7 @ [?cp]\<rparr>)"
        by auto
      with Some eq c7 d7 u7 p7 show ?thesis
        by (simp add: addProgressLog_def setLoading_def pushDraft_def untouched_def
              cumulative_snoc)
    qed
  qed
qed

lemma cumulative_step:
  "parts \<noteq> [] \<Longrightarrow> j < length ts \<Longrightarrow>
   (join (LF @ LF) parts # cumulative parts ts) ! Suc j
     = (join (LF @ LF) parts # cumulative parts ts) ! j @ LF @ LF @ ts ! j"
proof (induction ts arbitrary: parts j)
  case Nil
  then show ?case by simp
next
  case (Cons t ts)
  show ?case
  proof (cases j)
    case 0
    with Cons.prems show ?thesis by (simp add: join_snoc)
  next
    case (Suc k)
    with Cons.prems have "k < length ts" by simp
    from Cons.IH [of "parts @ [t]" k, OF _ this] Suc show ?thesis by simp
  qed
qed

lemma versions_step:
  assumes "2 \<le> i" "i < length ts + 2"
  shows "(oh # it # cumulative [it] ts) ! i = (oh # it # cumulative [it] ts) ! (i - 1) @ LF @ LF @ ts ! (i - 2)"
proof -
  from assms have "i = Suc (Suc (i - 2))" "i - 2 < length ts" by arith+
  then obtain j where j: "i = Suc (Suc j)" "j < length ts" by blast
  have "join (LF @ LF) [it] = it" by simp
  with cumulative_step [of "[it]" j ts] j show ?thesis by simp
qed

lemma themeReplies_nth:
  "j < length ths \<Longrightarrow>
   themeReplies E c topic ctx ths ! j = generateContent E (c + j) (themePrompt (ths ! j) topic ctx)"
  by (simp add: themeReplies_def nth_enumerate_eq)

lemma length_themeReplies [simp]: "length (themeReplies E c topic ctx ths) = length ths"
  by (simp add: themeReplies_def)

lemma leading_replies:
  fixes E c topic ctx ths
  defines "k \<equiv> length (takeWhile (\<lambda>x. x \<noteq> None) (themeReplies E c topic ctx ths))"
  shows "k \<le> length ths"
    and "\<And>j. j < k \<Longrightarrow> generateContent E (c + j) (themePrompt (ths ! j) topic ctx) \<noteq> None"
    and "\<And>j. j < k \<Longrightarrow> map the (takeWhile (\<lambda>x. x \<noteq> None) (themeReplies E c topic ctx ths)) ! j
            = the (generateContent E (c + j) (themePrompt (ths ! j) topic ctx))"
    and "k < length ths \<Longrightarrow> generateContent E (c + k) (themePrompt (ths ! k) topic ctx) = None"
proof -
  let ?rs = "themeReplies E c topic ctx ths"
  let ?P = "\<lambda>x::string option. x \<noteq> None"
  show le: "k \<le> length ths"
    unfolding k_def using length_takeWhile_le [of ?P ?rs] by simp
  { fix j assume j: "j < k"
    then have jl: "j < length ths" using le by simp
    have eq: "takeWhile ?P ?rs ! j = ?rs ! j"
      using j unfolding k_def by (rule takeWhile_nth)
    have "takeWhile ?P ?rs ! j \<in> set (takeWhile ?P ?rs)"
      using j unfolding k_def by simp
    then have "?P (takeWhile ?P ?rs ! j)" by (rule set_takeWhileD [THEN conjunct2])
    with eq have ok: "?rs ! j \<noteq> None" by simp
    then show "generateContent E (c + j) (themePrompt (ths ! j) topic ctx) \<noteq> None"
      using jl by (simp add: themeReplies_nth)
    show "map the (takeWhile ?P ?rs) ! j = the (generateContent E (c + j) (themePrompt (ths ! j) topic ctx))"
      using j jl eq unfolding k_def by (simp add: themeReplies_nth)
  }
  { assume "k < length ths"
    then have "k < length ?rs" by simp
    then have "\<not> ?P (?rs ! k)" unfolding k_def by (rule nth_length_takeWhile)
    then show "generateContent E (c + k) (themePrompt (ths ! k) topic ctx) = None"
      using \<open>k < length ths\<close> by (simp add: themeReplies_nth)
  }
qed

lemma run_summary_sections:
  assumes o1: "generateContent E c op = Some ot"
      and o2: "JSON_parse_outline E ot = Some outline"
      and i: "generateContent E (Suc c) ip = Some it"
      and T: "\<And>j. j < length T \<Longrightarrow> generateContent E (c + 2 + j) (Q ! j) = Some (T ! j)"
      and lenQ: "length Q = (if r = None then length T else Suc (length T))"
      and ne: "r = None \<Longrightarrow> T \<noteq> []"
      and last: "r \<noteq> None \<Longrightarrow> generateContent E (c + 2 + length T) (Q ! length T) = None"
  shows "runSummary E c r (op # ip # Q) (outlineHtml outline # it # cumulative [it] T)"
proof -
  let ?ps = "op # ip # Q"
  let ?vs = "outlineHtml outline # it # cumulative [it] T"
  have ok0: "stageSucceeds E c (c + 0) (?ps ! 0)"
    using o1 o2 by (simp add: stageSucceeds_def)
  have ok1: "stageSucceeds E c (c + 1) (?ps ! 1)"
    using i by (simp add: stageSucceeds_def)
  have okT: "stageSucceeds E c (c + j) (?ps ! j)" if "2 \<le> j" "j < length T + 2" for j
  proof -
    from that have "j = Suc (Suc (j - 2))" "j - 2 < length T" by arith+
    then obtain m where m: "j = Suc (Suc m)" "m < length T" by blast
    from T [OF m(2)] m show ?thesis by (simp add: stageSucceeds_def)
  qed
  have ok: "stageSucceeds E c (c + j) (?ps ! j)" if "j < length T + 2" for j
  proof -
    consider "j = 0" | "j = 1" | "2 \<le> j" by linarith
    then show ?thesis
    proof cases
      case 1 with ok0 show ?thesis by simp
    next
      case 2 with ok1 show ?thesis by simp
    next
      case 3 with okT that show ?thesis by blast
    qed
  qed
  have a: "\<forall>j \<in> {..<length ?ps - 1}. stageSucceeds E c (c + j) (?ps ! j)"
  proof
    fix j assume "j \<in> {..<length ?ps - 1}"
    then have "j < length T + 2" using lenQ by (simp split: if_splits)
    then show "stageSucceeds E c (c + j) (?ps ! j)" by (rule ok)
  qed
  have b: "(r = None) = stageSucceeds E c (c + (length ?ps - 1)) (?ps ! (length ?ps - 1))"
  proof (cases "r = None")
    case True
    with lenQ ne have "length ?ps - 1 < length T + 2" by (cases T) auto
    from ok [OF this] True show ?thesis by simp
  next
    case False
    with lenQ have l: "length ?ps - 1 = Suc (Suc (length T))" by simp
    from last [OF False] False show ?thesis
      unfolding l by (simp add: stageSucceeds_def)
  qed
  have c: "length ?vs = (if r = None then length ?ps else length ?ps - 1)"
    using lenQ by simp
  have d: "?vs ! 0 = outlineHtml (the (JSON_parse_outline E (the (generateContent E c (?ps ! 0)))))"
    using o1 o2 by simp
  have e: "?vs ! 1 = the (generateContent E (c + 1) (?ps ! 1))"
    using i by simp
  have f: "\<forall>i \<in> {2..<length ?vs}.
             ?vs ! i = ?vs ! (i - 1) @ LF @ LF @ the (generateContent E (c + i) (?ps ! i))"
  proof
    fix n assume "n \<in> {2..<length ?vs}"
    then have n: "2 \<le> n" "n < length T + 2" by simp_all
    then have "n = Suc (Suc (n - 2))" "n - 2 < length T" by arith+
    then obtain m where m: "n = Suc (Suc m)" "m < length T" by blast
    have "T ! (n - 2) = the (generateContent E (c + n) (?ps ! n))"
      using T [OF m(2)] m by simp
    with versions_step [OF n, of "outlineHtml outline" it]
    show "?vs ! n = ?vs ! (n - 1) @ LF @ LF @ the (generateContent E (c + n) (?ps ! n))"
      by simp
  qed
  show ?thesis
    unfolding runSummary_def using a b c d e f by simp
qed

lemma gdr_summary:
  assumes run: "generateDetailedReview E topic ctx s = (r, s')"
  shows "\<exists>ps vs. calls s' = calls s @ ps \<and> draftHistory s' = draftHistory s @ vs
           \<and> untouched s s' \<and> runSummary E (length (calls s)) r ps vs
           \<and> ps ! 0 = outlinePrompt topic ctx
           \<and> (r = None \<longrightarrow> (\<exists>ot outline.
                 generateContent E (length (calls s)) (outlinePrompt topic ctx) = Some ot
               \<and> JSON_parse_outline E ot = Some outline
               \<and> ps = outlinePrompt topic ctx # introPrompt topic (introduction outline) ctx
                      # map (\<lambda>th. themePrompt th topic ctx) (themes outline)
                      @ [conclusionPrompt topic (conclusion outline) ctx]))"
proof -
  let ?c = "length (calls s)"
  let ?op = "outlinePrompt topic ctx"
  show ?thesis
  proof (cases "Option.bind (generateContent E ?c ?op) (JSON_parse_outline E)")
    case None
    note f = gdr_outline_failed [OF None run]
    have "\<not> stageSucceeds E ?c ?c ?op"
      using None by (auto simp: stageSucceeds_def split: option.splits)
    with f have "runSummary E ?c r [?op] []"
      by (simp add: runSummary_def)
    with f show ?thesis by (intro exI [of _ "[?op]"] exI [of _ "[]"]) simp
  next
    case (Some outline)
    then obtain ot where o1: "generateContent E ?c ?op = Some ot"
      and o2: "JSON_parse_outline E ot = Some outline"
      by (auto simp: bind_eq_Some_conv)
    let ?ip = "introPrompt topic (introduction outline) ctx"
    let ?cp = "conclusionPrompt topic (conclusion outline) ctx"
    let ?tp = "\<lambda>th. themePrompt th topic ctx"
    let ?ths = "themes outline"
    show ?thesis
    proof (cases "generateContent E (Suc ?c) ?ip")
      case None
      note f = gdr_intro_rejected [OF o1 o2 None run]
      have "stageSucceeds E ?c ?c ?op" using o1 o2 by (simp add: stageSucceeds_def)
      moreover have "\<not> stageSucceeds E ?c (Suc ?c) ?ip" using None by (simp add: stageSucceeds_def)
      ultimately have "runSummary E ?c r [?op, ?ip] [outlineHtml outline]"
        using f o1 o2 by (simp add: runSummary_def)
      with f show ?thesis
        by (intro exI [of _ "[?op, ?ip]"] exI [of _ "[outlineHtml outline]"]) simp
    next
      case (Some it)
      note w = gdr_intro_written [OF o1 o2 Some run]
      let ?rs = "themeReplies E (?c + 2) topic ctx ?ths"
      let ?ok = "takeWhile (\<lambda>x. x \<noteq> None) ?rs"
      let ?k = "length ?ok"
      note lr = leading_replies [where E = E and c = "?c + 2" and topic = topic and ctx = ctx
          and ths = "?ths"]
      have Tk: "generateContent E (?c + 2 + j) (?tp (?ths ! j)) = Some (map the ?ok ! j)"
        if "j < ?k" for j
        using lr(2) [OF that] lr(3) [OF that] by auto
      show ?thesis
      proof (cases "?k < length ?ths")
        case True
        with w have e: "r = Some ApiError"
          and c: "calls s' = calls s @ [?op, ?ip] @ map ?tp (take (Suc ?k) ?ths)"
          and d: "draftHistory s' = draftHistory s @ [outlineHtml outline, it] @ cumulative [it] (map the ?ok)"
          and u: "untouched s s'"
          by blast+
        have "runSummary E ?c r (?op # ?ip # map ?tp (take (Suc ?k) ?ths))
                (outlineHtml outline # it # cumulative [it] (map the ?ok))"
        proof (rule run_summary_sections [OF o1 o2 Some])
          fix j assume "j < length (map the ?ok)"
          then have j: "j < ?k" by simp
          with True have "map ?tp (take (Suc ?k) ?ths) ! j = ?tp (?ths ! j)" by simp
          with Tk [OF j] show "generateContent E (?c + 2 + j) (map ?tp (take (Suc ?k) ?ths) ! j)
              = Some (map the ?ok ! j)" by simp
        next
          show "length (map ?tp (take (Suc ?k) ?ths))
              = (if r = None then length (map the ?ok) else Suc (length (map the ?ok)))"
            using True e by simp
        next
          assume "r = None" with e show "map the ?ok \<noteq> []" by simp
        next
          assume "r \<noteq> None"
          have "map ?tp (take (Suc ?k) ?ths) ! ?k = ?tp (?ths ! ?k)" using True by simp
          with lr(4) [OF True]
          show "generateContent E (?c + 2 + length (map the ?ok))
                  (map ?tp (take (Suc ?k) ?ths) ! length (map the ?ok)) = None"
            by simp
        qed
        with e c d u show ?thesis
          by (intro exI [of _ "?op # ?ip # map ?tp (take (Suc ?k) ?ths)"]
                exI [of _ "outlineHtml outline # it # cumulative [it] (map the ?ok)"]) simp
      next
        case False
        with lr(1) have eq: "?k = length ?ths" by simp
        then have all: "?ok = ?rs" by (metis length_themeReplies takeWhile_eq_take take_all order_refl)
        from w eq have c: "calls s' = calls s @ [?op, ?ip] @ map ?tp ?ths @ [?cp]"
          and u: "untouched s s'"
          and cs: "case generateContent E (?c + 2 + length ?ths) ?cp of
                None \<Rightarrow> r = Some ApiError
                  \<and> draftHistory s' = draftHistory s @ [outlineHtml outline, it]
                       @ cumulative [it] (map the ?rs)
              | Some ct \<Rightarrow> r = None
                  \<and> draftHistory s' = draftHistory s @ [outlineHtml outline, it]
                       @ cumulative [it] (map the ?rs @ [ct])"
          by blast+
        have TN: "generateContent E (?c + 2 + j) ((map ?tp ?ths @ [?cp]) ! j) = Some (map the ?rs ! j)"
          if "j < length ?ths" for j
        proof -
          from that eq have "j < ?k" by simp
          from Tk [OF this] that show ?thesis unfolding all by (simp add: nth_append)
        qed
        show ?thesis
        proof (cases "generateContent E (?c + 2 + length ?ths) ?cp")
          case None
          with cs have e: "r = Some ApiError"
            and d: "draftHistory s' = draftHistory s @ [outlineHtml outline, it] @ cumulative [it] (map the ?rs)"
            by simp_all
          have "runSummary E ?c r (?op # ?ip # map ?tp ?ths @ [?cp])
                  (outlineHtml outline # it # cumulative [it] (map the ?rs))"
          proof (rule run_summary_sections [OF o1 o2 Some])
            fix j assume "j < length (map the ?rs)"
            then have "j < length ?ths" by simp
            from TN [OF this] show "generateContent E (?c + 2 + j) ((map ?tp ?ths @ [?cp]) ! j)
                = Some (map the ?rs ! j)" .
          next
            show "length (map ?tp ?ths @ [?cp])
                = (if r = None then length (map the ?rs) else Suc (length (map the ?rs)))"
              using e by simp
          next
            assume "r = None" with e show "map the ?rs \<noteq> []" by simp
          next
            assume "r \<noteq> None"
            show "generateContent E (?c + 2 + length (map the ?rs))
                    ((map ?tp ?ths @ [?cp]) ! length (map the ?rs)) = None"
              using None by (simp add: nth_append)
          qed
          with e c d u show ?thesis
            by (intro exI [of _ "?op # ?ip # map ?tp ?ths @ [?cp]"]
                  exI [of _ "outlineHtml outline # it # cumulative [it] (map the ?rs)"]) simp
        next
          case (Some ct)
          with cs have e: "r = None"
            and d: "draftHistory s' = draftHistory s @ [outlineHtml outline, it]
                       @ cumulative [it] (map the ?rs @ [ct])"
            by simp_all
          have "runSummary E ?c r (?op # ?ip # map ?tp ?ths @ [?cp])
                  (outlineHtml outline # it # cumulative [it] (map the ?rs @ [ct]))"
          proof (rule run_summary_sections [OF o1 o2 \<open>generateContent E (Suc ?c) ?ip = Some it\<close>])
            fix j assume "j < length (map the ?rs @ [ct])"
            then consider "j < length ?ths" | "j = length ?ths" by fastforce
            then show "generateContent E (?c + 2 + j) ((map ?tp ?ths @ [?cp]) ! j)
                = Some ((map the ?rs @ [ct]) ! j)"
            proof cases
              case 1
              from TN [OF 1] 1 show ?thesis by (simp add: nth_append)
            next
              case 2
              with Some show ?thesis by (simp add: nth_append)
            qed
          next
            show "length (map ?tp ?ths @ [?cp])
                = (if r = None then length (map the ?rs @ [ct]) else Suc (length (map the ?rs @ [ct])))"
              using e by simp
          next
            show "map the ?rs @ [ct] \<noteq> []" by simp
          next
            assume "r \<noteq> None" with e
            show "generateContent E (?c + 2 + length (map the ?rs @ [ct]))
                    ((map ?tp ?ths @ [?cp]) ! length (map the ?rs @ [ct])) = None"
              by simp
          qed
          with e c d u o1 o2 show ?thesis
            by (intro exI [of _ "?op # ?ip # map ?tp ?ths @ [?cp]"]
                  exI [of _ "outlineHtml outline # it # cumulative [it] (map the ?rs @ [ct])"]) simp
        qed
      qed
    qed
  qed
qed

section \<open>Detailed mode: versions of a successful run\<close>

text \<open>
  Claim C1, as the code has it.  When the outline call of a detailed run returns an outline
  with \<open>N\<close> themes and the \<open>N + 2\<close> calls after it (the introduction, one call per theme,
  the conclusion, each with the prompt of its stage at its place in the sequence of calls)
  all succeed, the run ends normally after exactly these calls, in this order: outline,
  introduction, one per theme, conclusion.  It
  appends exactly \<open>N + 3\<close> versions to the draft history.  The first is the outline's
  markup and the second is the introduction as the model wrote it.  Every later version is
  the version before it followed by a blank line and the text of its own stage, so from the
  third version on each version strictly extends its predecessor.
\<close>

theorem detailed_review_versions:
  assumes o1: "generateContent E (length (calls s)) (outlinePrompt topic ctx) = Some ot"
      and o2: "JSON_parse_outline E ot = Some outline"
      and oi: "generateContent E (length (calls s) + 1)
                 (introPrompt topic (introduction outline) ctx) \<noteq> None"
      and ot: "\<forall>j<length (themes outline).
                 generateContent E (length (calls s) + 2 + j)
                   (themePrompt (themes outline ! j) topic ctx) \<noteq> None"
      and oc: "generateContent E (length (calls s) + 2 + length (themes outline))
                 (conclusionPrompt topic (conclusion outline) ctx) \<noteq> None"
  shows "\<exists>ps vs.
           fst (generateDetailedReview E topic ctx s) = None
         \<and> calls (snd (generateDetailedReview E topic ctx s)) = calls s @ ps
         \<and> ps = outlinePrompt topic ctx # introPrompt topic (introduction outline) ctx
                  # map (\<lambda>th. themePrompt th topic ctx) (themes outline)
                  @ [conclusionPrompt topic (conclusion outline) ctx]
         \<and> draftHistory (snd (generateDetailedReview E topic ctx s)) = draftHistory s @ vs
         \<and> length vs = length (themes outline) + 3
         \<and> vs ! 0 = outlineHtml outline
         \<and> vs ! 1 = the (generateContent E (length (calls s) + 1) (ps ! 1))
         \<and> (\<forall>i \<in> {2..<length vs}.
               vs ! i = vs ! (i - 1) @ LF @ LF @ the (generateContent E (length (calls s) + i) (ps ! i))
             \<and> strict_prefix (vs ! (i - 1)) (vs ! i))"
proof -
  let ?c = "length (calls s)"
  let ?N = "length (themes outline)"
  let ?ip = "introPrompt topic (introduction outline) ctx"
  let ?cp = "conclusionPrompt topic (conclusion outline) ctx"
  obtain r s' where run: "generateDetailedReview E topic ctx s = (r, s')" by force
  have "generateContent E (Suc ?c) ?ip \<noteq> None"
    using oi by simp
  then obtain it where i: "generateContent E (Suc ?c) ?ip = Some it" by blast
  note w = gdr_intro_written [OF o1 o2 i run]
  note lr = leading_replies [where E = E and c = "?c + 2" and topic = topic and ctx = ctx
      and ths = "themes outline"]
  let ?k = "length (takeWhile (\<lambda>x. x \<noteq> None) (themeReplies E (?c + 2) topic ctx (themes outline)))"
  have k: "?k = ?N"
  proof (rule ccontr)
    assume "?k \<noteq> ?N"
    with lr(1) have lt: "?k < ?N" by simp
    have "generateContent E (?c + 2 + ?k) (themePrompt (themes outline ! ?k) topic ctx) \<noteq> None"
      using ot [rule_format, of ?k] lt by simp
    with lr(4) [OF lt] show False by simp
  qed
  have "generateContent E (?c + 2 + ?N) ?cp \<noteq> None"
    using oc by simp
  then obtain ct where ct: "generateContent E (?c + 2 + ?N) ?cp = Some ct" by blast
  from w k ct have r: "r = None" by simp
  from gdr_summary [OF run] r o1 o2 obtain ps vs where
        c: "calls s' = calls s @ ps"
    and d: "draftHistory s' = draftHistory s @ vs"
    and su: "runSummary E ?c None ps vs"
    and ps: "ps = outlinePrompt topic ctx # ?ip # map (\<lambda>th. themePrompt th topic ctx) (themes outline) @ [?cp]"
    by auto
  have len: "length vs = length ps" using su by (simp add: runSummary_def)
  have v0: "0 < length vs \<longrightarrow>
               vs ! 0 = outlineHtml (the (JSON_parse_outline E (the (generateContent E ?c (ps ! 0)))))"
    using su unfolding runSummary_def by blast
  have v1: "1 < length vs \<longrightarrow> vs ! 1 = the (generateContent E (?c + 1) (ps ! 1))"
    using su unfolding runSummary_def by blast
  have vi: "\<forall>i \<in> {2..<length vs}.
               vs ! i = vs ! (i - 1) @ LF @ LF @ the (generateContent E (?c + i) (ps ! i))"
    using su unfolding runSummary_def by blast
  have lv: "length vs = ?N + 3" using len ps by simp
  have s0: "vs ! 0 = outlineHtml outline" using v0 lv ps o1 o2 by simp
  have s1: "vs ! 1 = the (generateContent E (?c + 1) (ps ! 1))" using v1 lv by simp
  have si: "\<forall>i \<in> {2..<length vs}.
               vs ! i = vs ! (i - 1) @ LF @ LF @ the (generateContent E (?c + i) (ps ! i))
             \<and> strict_prefix (vs ! (i - 1)) (vs ! i)"
  proof
    fix n assume n: "n \<in> {2..<length vs}"
    with vi have e: "vs ! n = vs ! (n - 1) @ LF @ LF @ the (generateContent E (?c + n) (ps ! n))"
      by blast
    have "strict_prefix (vs ! (n - 1)) (vs ! (n - 1) @ LF @ LF @ the (generateContent E (?c + n) (ps ! n)))"
      by (simp add: LF_def strict_prefix_def)
    with e show "vs ! n = vs ! (n - 1) @ LF @ LF @ the (generateContent E (?c + n) (ps ! n))
             \<and> strict_prefix (vs ! (n - 1)) (vs ! n)" by simp
  qed
  have f1: "fst (generateDetailedReview E topic ctx s) = None" using run r by simp
  have f2: "calls (snd (generateDetailedReview E topic ctx s)) = calls s @ ps" using run c by simp
  have f3: "draftHistory (snd (generateDetailedReview E topic ctx s)) = draftHistory s @ vs"
    using run d by simp
  from f1 f2 ps f3 lv s0 s1 si show ?thesis by blast
qed

theorem detailed_review_versions_witness:
  "generateContent (exampleEnv 7) (length (calls twoDocs)) (outlinePrompt ''cats'' (knowledgeContext [docA, docB]))
      = Some ''Part 0 cites (Chen, 2019).''
   \<and> JSON_parse_outline (exampleEnv 7) ''Part 0 cites (Chen, 2019).''
      = Some \<lparr>introduction = ''Scope'', themes = [''Sound'', ''Sleep''], conclusion = ''Gaps''\<rparr>
   \<and> fst (generateDetailedReview (exampleEnv 7) ''cats'' (knowledgeContext [docA, docB]) twoDocs) = None
   \<and> length (draftHistory (snd (generateDetailedReview (exampleEnv 7) ''cats'' (knowledgeContext [docA, docB]) twoDocs)))
      = 5
   \<and> draftHistory (snd (generateDetailedReview (exampleEnv 7) ''cats'' (knowledgeContext [docA, docB]) twoDocs))
      = [''<h3>Outline</h3><ul><li>Introduction</li><li>Body Paragraphs:<ul><li>Sound</li><li>Sleep</li></ul></li><li>Conclusion</li></ul>'',
         ''Part 1 cites (Chen, 2019).'',
         ''Part 1 cites (Chen, 2019).'' @ LF @ LF @ ''Part 2 cites (Chen, 2019).'',
         ''Part 1 cites (Chen, 2019).'' @ LF @ LF @ ''Part 2 cites (Chen, 2019).'' @ LF @ LF
           @ ''Part 3 cites (Chen, 2019).'',
         ''Part 1 cites (Chen, 2019).'' @ LF @ LF @ ''Part 2 cites (Chen, 2019).'' @ LF @ LF
           @ ''Part 3 cites (Chen, 2019).'' @ LF @ LF @ ''Part 4 cites (Chen, 2019).'']"
proof -
  let ?E = "exampleEnv 7"
  let ?ctx = "knowledgeContext [docA, docB]"
  let ?outline = "\<lparr>introduction = ''Scope'', themes = [''Sound'', ''Sleep''], conclusion = ''Gaps''\<rparr>"
  have c0: "length (calls twoDocs) = 0" by (simp add: twoDocs_def initialState_def)
  have o1: "generateContent ?E (length (calls twoDocs)) (outlinePrompt ''cats'' ?ctx)
      = Some ''Part 0 cites (Chen, 2019).''"
    unfolding c0 by (simp add: exampleEnv_def toString.simps)
  have o2: "JSON_parse_outline ?E ''Part 0 cites (Chen, 2019).'' = Some ?outline"
    by (simp add: exampleEnv_def)
  have oi: "generateContent ?E (length (calls twoDocs) + 1)
              (introPrompt ''cats'' (introduction ?outline) ?ctx) \<noteq> None"
    unfolding c0 by (simp add: exampleEnv_def)
  have ot: "\<forall>j<length (themes ?outline).
              generateContent ?E (length (calls twoDocs) + 2 + j)
                (themePrompt (themes ?outline ! j) ''cats'' ?ctx) \<noteq> None"
    unfolding c0 by (simp add: exampleEnv_def)
  have oc: "generateContent ?E (length (calls twoDocs) + 2 + length (themes ?outline))
              (conclusionPrompt ''cats'' (conclusion ?outline) ?ctx) \<noteq> None"
    unfolding c0 by (simp add: exampleEnv_def)
  from detailed_review_versions [OF o1 o2 oi ot oc]
  have t: "fst (generateDetailedReview ?E ''cats'' ?ctx twoDocs) = None
         \<and> length (draftHistory (snd (generateDetailedReview ?E ''cats'' ?ctx twoDocs))) = 5"
    by (auto simp: twoDocs_def initialState_def)
  have ev: "draftHistory (snd (generateDetailedReview ?E ''cats'' ?ctx twoDocs))
      = [''<h3>Outline</h3><ul><li>Introduction</li><li>Body Paragraphs:<ul><li>Sound</li><li>Sleep</li></ul></li><li>Conclusion</li></ul>'',
         ''Part 1 cites (Chen, 2019).'',
         ''Part 1 cites (Chen, 2019).'' @ LF @ LF @ ''Part 2 cites (Chen, 2019).'',
         ''Part 1 cites (Chen, 2019).'' @ LF @ LF @ ''Part 2 cites (Chen, 2019).'' @ LF @ LF
           @ ''Part 3 cites (Chen, 2019).'',
         ''Part 1 cites (Chen, 2019).'' @ LF @ LF @ ''Part 2 cites (Chen, 2019).'' @ LF @ LF
           @ ''Part 3 cites (Chen, 2019).'' @ LF @ LF @ ''Part 4 cites (Chen, 2019).'']"
    by code_simp
  from o1 o2 t ev show ?thesis by blast
qed

text \<open>
  The second version does not extend the first: the first is the outline's markup, the
  second starts with the introduction the model wrote.
\<close>

theorem introduction_does_not_extend_outline:
  "fst (generateDetailedReview (exampleEnv 7) ''cats'' (knowledgeContext [docA, docB]) twoDocs) = None
   \<and> length (draftHistory (snd (generateDetailedReview (exampleEnv 7) ''cats'' (knowledgeContext [docA, docB]) twoDocs))) = 5
   \<and> draftHistory (snd (generateDetailedReview (exampleEnv 7) ''cats'' (knowledgeContext [docA, docB]) twoDocs)) ! 1
        = ''Part 1 cites (Chen, 2019).''
   \<and> \<not> prefix
        (draftHistory (snd (generateDetailedReview (exampleEnv 7) ''cats'' (knowledgeContext [docA, docB]) twoDocs)) ! 0)
        (draftHistory (snd (generateDetailedReview (exampleEnv 7) ''cats'' (knowledgeContext [docA, docB]) twoDocs)) ! 1)"
  by code_simp

section \<open>Detailed mode: a failing stage\<close>

lemma handleGenerateReview_detailed:
  assumes "trim (reviewTopicInput s) \<noteq> []" and "reviewLength s = ''detailed''"
      and "generateDetailedReview E (trim (reviewTopicInput s)) (knowledgeContext (knowledgeSources s))
             (s\<lparr>reviewGenerationProgressHidden := False, writingAssistantSectionHidden := True,
                reviewProgressLog := [], reviewDraftOutput := [], draftVersionControls := [],
                draftHistory := [], referencesContainerHidden := True, referencesList := []\<rparr>)
           = (r, s2)"
  shows "calls (handleGenerateReview E s) = calls s2"
    and "draftHistory (handleGenerateReview E s) = draftHistory s2"
    and "r \<noteq> None \<Longrightarrow> handleGenerateReview E s =
           setLoading False ''Processing...''
             (alert ''An error occurred. Please check the console.''
                (addProgressLog ''An error occurred during generation.'' s2))"
  using assms
  by (auto simp: handleGenerateReview_def Let_def setLoading_def alert_def addProgressLog_def
        renderDraftViewer_def set_innerHTML_def generateBibliography_def split: option.splits)

text \<open>
  Claim C4.  Take a run of the review handler in detailed mode in which some call it issued
  did not succeed.  Then that call is the last one in the log of calls, so no later stage
  was started, and every call before it succeeded.  The draft history holds one version per
  successful call, built as in a complete run: the versions of the stages that completed
  remain.  Nothing is committed as the final review: the editor of the writing assistant is
  the one from before the run, the assistant and the references stay hidden, no version
  buttons are rendered, and the user is alerted.
\<close>

theorem failed_stage_aborts_pipeline:
  assumes topic: "trim (reviewTopicInput s) \<noteq> []"
      and mode: "reviewLength s = ''detailed''"
      and fail: "\<exists>n \<in> {length (calls s)..<length (calls (handleGenerateReview E s))}.
                   \<not> stageSucceeds E (length (calls s)) n (calls (handleGenerateReview E s) ! n)"
  shows "length (calls s) < length (calls (handleGenerateReview E s))
       \<and> \<not> stageSucceeds E (length (calls s)) (length (calls (handleGenerateReview E s)) - 1)
             (calls (handleGenerateReview E s) ! (length (calls (handleGenerateReview E s)) - 1))
       \<and> (\<forall>n \<in> {length (calls s)..<length (calls (handleGenerateReview E s)) - 1}.
             stageSucceeds E (length (calls s)) n (calls (handleGenerateReview E s) ! n))
       \<and> length (draftHistory (handleGenerateReview E s))
           = length (calls (handleGenerateReview E s)) - 1 - length (calls s)
       \<and> (0 < length (draftHistory (handleGenerateReview E s)) \<longrightarrow>
            draftHistory (handleGenerateReview E s) ! 0
              = outlineHtml (the (JSON_parse_outline E (the (generateContent E (length (calls s))
                  (calls (handleGenerateReview E s) ! length (calls s)))))))
       \<and> (1 < length (draftHistory (handleGenerateReview E s)) \<longrightarrow>
            draftHistory (handleGenerateReview E s) ! 1
              = the (generateContent E (length (calls s) + 1)
                  (calls (handleGenerateReview E s) ! (length (calls s) + 1))))
       \<and> (\<forall>i \<in> {2..<length (draftHistory (handleGenerateReview E s))}.
            draftHistory (handleGenerateReview E s) ! i
              = draftHistory (handleGenerateReview E s) ! (i - 1) @ LF @ LF
                @ the (generateContent E (length (calls s) + i)
                    (calls (handleGenerateReview E s) ! (length (calls s) + i))))
       \<and> writingEditor (handleGenerateReview E s) = writingEditor s
       \<and> writingAssistantSectionHidden (handleGenerateReview E s)
       \<and> referencesContainerHidden (handleGenerateReview E s)
       \<and> referencesList (handleGenerateReview E s) = []
       \<and> draftVersionControls (handleGenerateReview E s) = []
       \<and> alerts (handleGenerateReview E s) = alerts s @ [''An error occurred. Please check the console.'']
       \<and> \<not> isLoading (handleGenerateReview E s)"
proof -
  let ?c = "length (calls s)"
  let ?s' = "handleGenerateReview E s"
  define s1 where "s1 = s\<lparr>reviewGenerationProgressHidden := False, writingAssistantSectionHidden := True,
                reviewProgressLog := [], reviewDraftOutput := [], draftVersionControls := [],
                draftHistory := [], referencesContainerHidden := True, referencesList := []\<rparr>"
  obtain r s2 where run: "generateDetailedReview E (trim (reviewTopicInput s))
      (knowledgeContext (knowledgeSources s)) s1 = (r, s2)" by force
  note h = handleGenerateReview_detailed [OF topic mode run [unfolded s1_def]]
  have c1: "calls s1 = calls s" and d1: "draftHistory s1 = []" by (simp_all add: s1_def)
  from gdr_summary [OF run] obtain ps vs where
        c2: "calls s2 = calls s @ ps"
    and d2: "draftHistory s2 = vs"
    and u: "untouched s1 s2"
    and su: "runSummary E ?c r ps vs"
    by (auto simp: c1 d1)
  have c': "calls ?s' = calls s @ ps" using h(1) c2 by simp
  have d': "draftHistory ?s' = vs" using h(2) d2 by simp
  have nth: "calls ?s' ! (?c + j) = ps ! j" for j unfolding c' by simp
  have ne: "ps \<noteq> []" using su unfolding runSummary_def by blast
  have early: "\<forall>j \<in> {..<length ps - 1}. stageSucceeds E ?c (?c + j) (ps ! j)"
    using su unfolding runSummary_def by blast
  have lastiff: "(r = None) = stageSucceeds E ?c (?c + (length ps - 1)) (ps ! (length ps - 1))"
    using su unfolding runSummary_def by blast
  from fail obtain n where n: "?c \<le> n" "n < ?c + length ps"
    and bad: "\<not> stageSucceeds E ?c n (calls ?s' ! n)"
    unfolding c' by auto
  define j where "j = n - ?c"
  have nj: "n = ?c + j" and jl: "j < length ps" using n by (simp_all add: j_def)
  have badj: "\<not> stageSucceeds E ?c (?c + j) (ps ! j)" using bad unfolding nj nth .
  have jlast: "j = length ps - 1"
  proof (rule ccontr)
    assume "j \<noteq> length ps - 1"
    with jl have "j \<in> {..<length ps - 1}" by simp
    with early badj show False by blast
  qed
  have r: "r \<noteq> None" using lastiff badj jlast by simp
  have lenv: "length vs = length ps - 1" using su r unfolding runSummary_def by simp
  have s': "?s' = setLoading False ''Processing...''
             (alert ''An error occurred. Please check the console.''
                (addProgressLog ''An error occurred during generation.'' s2))"
    using h(3) [OF r] .
  have a: "?c < length (calls ?s')" using c' ne by simp
  have lastidx: "length (calls ?s') - 1 = ?c + (length ps - 1)" using c' ne by (cases ps) simp_all
  have b: "\<not> stageSucceeds E ?c (length (calls ?s') - 1) (calls ?s' ! (length (calls ?s') - 1))"
    unfolding lastidx nth using badj jlast by simp
  have c: "\<forall>n \<in> {?c..<length (calls ?s') - 1}. stageSucceeds E ?c n (calls ?s' ! n)"
  proof
    fix m assume "m \<in> {?c..<length (calls ?s') - 1}"
    then have m: "?c \<le> m" "m - ?c < length ps - 1" unfolding lastidx by auto
    then have "m - ?c \<in> {..<length ps - 1}" by simp
    with early have "stageSucceeds E ?c (?c + (m - ?c)) (ps ! (m - ?c))" by blast
    moreover have "m = ?c + (m - ?c)" using m by simp
    ultimately show "stageSucceeds E ?c m (calls ?s' ! m)" using nth [of "m - ?c"] by metis
  qed
  have d: "length (draftHistory ?s') = length (calls ?s') - 1 - ?c"
    unfolding d' lenv lastidx by simp
  have e: "0 < length (draftHistory ?s') \<longrightarrow>
            draftHistory ?s' ! 0
              = outlineHtml (the (JSON_parse_outline E (the (generateContent E ?c (calls ?s' ! ?c)))))"
  proof -
    have "0 < length vs \<longrightarrow>
            vs ! 0 = outlineHtml (the (JSON_parse_outline E (the (generateContent E ?c (ps ! 0)))))"
      using su unfolding runSummary_def by blast
    with nth [of 0] show ?thesis unfolding d' by simp
  qed
  have f: "1 < length (draftHistory ?s') \<longrightarrow>
            draftHistory ?s' ! 1 = the (generateContent E (?c + 1) (calls ?s' ! (?c + 1)))"
    using su unfolding d' nth runSummary_def by blast
  have g: "\<forall>i \<in> {2..<length (draftHistory ?s')}.
            draftHistory ?s' ! i = draftHistory ?s' ! (i - 1) @ LF @ LF
                @ the (generateContent E (?c + i) (calls ?s' ! (?c + i)))"
    using su unfolding d' nth runSummary_def by blast
  have u1: "writingEditor s2 = writingEditor s" "alerts s2 = alerts s"
    "writingAssistantSectionHidden s2" "referencesContainerHidden s2"
    "referencesList s2 = []" "draftVersionControls s2 = []"
    using u by (simp_all add: untouched_def s1_def)
  have k: "writingEditor ?s' = writingEditor s"
    "writingAssistantSectionHidden ?s'" "referencesContainerHidden ?s'"
    "referencesList ?s' = []" "draftVersionControls ?s' = []"
    "alerts ?s' = alerts s @ [''An error occurred. Please check the console.'']"
    "\<not> isLoading ?s'"
    unfolding s' using u1 by (simp_all add: setLoading_def alert_def addProgressLog_def)
  from a b c d e f g k show ?thesis by blast
qed

theorem failed_stage_aborts_pipeline_witness:
  "trim (reviewTopicInput (twoDocs\<lparr>reviewTopicInput := ''cats''\<rparr>)) \<noteq> []
   \<and> reviewLength (twoDocs\<lparr>reviewTopicInput := ''cats''\<rparr>) = ''detailed''
   \<and> length (calls (handleGenerateReview (exampleEnv 3) (twoDocs\<lparr>reviewTopicInput := ''cats''\<rparr>))) = 4
   \<and> \<not> stageSucceeds (exampleEnv 3) 0 3
         (calls (handleGenerateReview (exampleEnv 3) (twoDocs\<lparr>reviewTopicInput := ''cats''\<rparr>)) ! 3)
   \<and> length (draftHistory (handleGenerateReview (exampleEnv 3) (twoDocs\<lparr>reviewTopicInput := ''cats''\<rparr>))) = 3
   \<and> draftHistory (handleGenerateReview (exampleEnv 3) (twoDocs\<lparr>reviewTopicInput := ''cats''\<rparr>)) ! 2
        = ''Part 1 cites (Chen, 2019).'' @ LF @ LF @ ''Part 2 cites (Chen, 2019).''
   \<and> writingEditor (handleGenerateReview (exampleEnv 3) (twoDocs\<lparr>reviewTopicInput := ''cats''\<rparr>)) = []
   \<and> writingAssistantSectionHidden (handleGenerateReview (exampleEnv 3) (twoDocs\<lparr>reviewTopicInput := ''cats''\<rparr>))
   \<and> alerts (handleGenerateReview (exampleEnv 3) (twoDocs\<lparr>reviewTopicInput := ''cats''\<rparr>))
        = [''An error occurred. Please check the console.'']"
proof -
  let ?s = "twoDocs\<lparr>reviewTopicInput := ''cats''\<rparr>"
  let ?E = "exampleEnv 3"
  have topic: "trim (reviewTopicInput ?s) \<noteq> []" by (simp add: trim_def isWhiteSpace_def)
  have mode: "reviewLength ?s = ''detailed''" by (simp add: twoDocs_def initialState_def)
  have c0: "length (calls ?s) = 0" by (simp add: twoDocs_def initialState_def)
  have ev: "length (calls (handleGenerateReview ?E ?s)) = 4
          \<and> \<not> stageSucceeds ?E 0 3 (calls (handleGenerateReview ?E ?s) ! 3)
          \<and> draftHistory (handleGenerateReview ?E ?s) ! 2
               = ''Part 1 cites (Chen, 2019).'' @ LF @ LF @ ''Part 2 cites (Chen, 2019).''"
    by code_simp
  have fail: "\<exists>n \<in> {length (calls ?s)..<length (calls (handleGenerateReview ?E ?s))}.
                 \<not> stageSucceeds ?E (length (calls ?s)) n (calls (handleGenerateReview ?E ?s) ! n)"
    unfolding c0 using ev by (intro bexI [of _ 3]) simp_all
  note t = failed_stage_aborts_pipeline [OF topic mode fail]
  have len: "length (draftHistory (handleGenerateReview ?E ?s)) = 3"
    using t ev c0 by simp
  have ed: "writingEditor (handleGenerateReview ?E ?s) = []"
    using t by (simp add: twoDocs_def initialState_def)
  have hid: "writingAssistantSectionHidden (handleGenerateReview ?E ?s)" using t by blast
  have al: "alerts (handleGenerateReview ?E ?s) = [''An error occurred. Please check the console.'']"
    using t by (simp add: twoDocs_def initialState_def)
  from topic mode ev len ed hid al show ?thesis by blast
qed

section \<open>Bibliography: which documents are listed\<close>

lemma indexOf_Some_iff:
  "indexOf t s = Some i \<longleftrightarrow> i \<le> length t \<and> prefix s (drop i t) \<and> (\<forall>j<i. \<not> prefix s (drop j t))"
proof (induction t arbitrary: i)
  case Nil
  then show ?case by auto
next
  case (Cons c t)
  show ?case
  proof (cases "prefix s (c # t)")
    case True
    then show ?thesis by (cases i) auto
  next
    case False
    show ?thesis
    proof (cases i)
      case 0
      with False show ?thesis by simp
    next
      case (Suc k)
      have "(\<forall>j<Suc k. \<not> prefix s (drop j (c # t))) \<longleftrightarrow> (\<forall>j<k. \<not> prefix s (drop j t))"
        using False by (auto simp: less_Suc_eq_0_disj)
      with Cons.IH [of k] False Suc show ?thesis by auto
    qed
  qed
qed

lemma indexOf_None_iff: "indexOf t s = None \<longleftrightarrow> \<not> sublist s t"
proof (induction t)
  case Nil
  then show ?case by auto
next
  case (Cons c t)
  then show ?case by (auto simp: sublist_Cons_right)
qed





lemma set_insertBy [simp]: "set (insertBy cmp x ys) = insert x (set ys)"
  by (induction ys) auto

lemma sortBy_Nil [simp]: "sortBy cmp [] = []"
  by (simp add: sortBy_def)

lemma sortBy_Cons [simp]: "sortBy cmp (x # xs) = insertBy cmp x (sortBy cmp xs)"
  by (simp add: sortBy_def)

lemma set_sortBy [simp]: "set (sortBy cmp xs) = set xs"
  by (induction xs) auto

lemma length_insertBy [simp]: "length (insertBy cmp x ys) = Suc (length ys)"
  by (induction ys) auto








lemma store_identifiers_stay_unique:
  assumes "distinct (map fileName (knowledgeSources s))"
  shows "distinct (map fileName (knowledgeSources (snd (analyzeAndStoreDocument E fname articleText s))))"
  using assms
  by (auto simp: analyzeAndStoreDocument_def ai_generateContent_def renderKnowledgeSources_def
        Let_def list_ex_iff split: option.splits)








section \<open>Accepting a proofreading suggestion\<close>

lemma getSubstitution_literal:
  "\<not> dollarPattern rep \<Longrightarrow> getSubstitution matched pre post rep = rep"
  by (induction matched pre post rep rule: getSubstitution.induct) auto

lemma dollarPattern_Cons: "c \<noteq> CHR ''$'' \<Longrightarrow> dollarPattern (c # t) = dollarPattern t"
  by (cases t) auto

lemma dollarPattern_closing_tag: "dollarPattern (t @ ''</strong>'') = dollarPattern t"
  by (induction t rule: dollarPattern.induct) auto

lemma dollarPattern_strong: "dollarPattern (''<strong>'' @ t @ ''</strong>'') = dollarPattern t"
  by (simp add: dollarPattern_Cons dollarPattern_closing_tag [simplified])

lemma replace_literal:
  "\<not> dollarPattern rep \<Longrightarrow>
   replace str pat rep
     = (case indexOf str pat of
          None \<Rightarrow> str
        | Some k \<Rightarrow> take k str @ rep @ drop (k + length pat) str)"
  by (simp add: replace_def Let_def getSubstitution_literal split: option.splits)

lemma splice1_nth: "i < length xs \<Longrightarrow> splice1 (int i) xs = take i xs @ drop (Suc i) xs"
  by (simp add: splice1_def Let_def)

text \<open>
  What accepting does in general: the markup read from the editor (\<^verbatim>\<open>innerHTML\<close>) goes
  through \<^verbatim>\<open>replace\<close> with the suggestion wrapped in \<^verbatim>\<open><strong>\<close> as the replacement string,
  the result is assigned back to the editor, and the suggestion leaves the pending list.
\<close>

lemma accept_runs_replace:
  assumes "i < length (analysisSuggestions s)" and "''accept'' \<in> set classes"
  shows "handleSuggestionClick E (Button classes (int i)) s
      = (None, (set_innerHTML E
                  (replace (serializeHTML E (writingEditor s)) (issue (analysisSuggestions s ! i))
                     (''<strong>'' @ suggestion (analysisSuggestions s ! i) @ ''</strong>'')) s)
           \<lparr>analysisSuggestions :=
              take i (analysisSuggestions s) @ drop (Suc i) (analysisSuggestions s)\<rparr>)"
  using assms by (simp add: handleSuggestionClick_def Let_def splice1_nth set_innerHTML_def)

text \<open>
  A suggestion in which none of the four dollar patterns occurs (\<^verbatim>\<open>$5\<close> is such a
  suggestion) is inserted as it is: the markup assigned to the editor is the markup read,
  with the first occurrence of the issue, if there is one, replaced by the wrapped
  suggestion.
\<close>

lemma accept_inserts_literal_suggestion:
  assumes "i < length (analysisSuggestions s)" and "''accept'' \<in> set classes"
      and "\<not> dollarPattern (suggestion (analysisSuggestions s ! i))"
  shows "handleSuggestionClick E (Button classes (int i)) s
      = (None, (set_innerHTML E
                  (case indexOf (serializeHTML E (writingEditor s)) (issue (analysisSuggestions s ! i)) of
                     None \<Rightarrow> serializeHTML E (writingEditor s)
                   | Some k \<Rightarrow>
                       take k (serializeHTML E (writingEditor s))
                       @ (''<strong>'' @ suggestion (analysisSuggestions s ! i) @ ''</strong>'')
                       @ drop (k + length (issue (analysisSuggestions s ! i)))
                           (serializeHTML E (writingEditor s))) s)
           \<lparr>analysisSuggestions :=
              take i (analysisSuggestions s) @ drop (Suc i) (analysisSuggestions s)\<rparr>)"
proof -
  have "\<not> dollarPattern (''<strong>'' @ suggestion (analysisSuggestions s ! i) @ ''</strong>'')"
    using assms(3) by (simp only: dollarPattern_strong simp_thms)
  then have r: "replace str pat (''<strong>'' @ suggestion (analysisSuggestions s ! i) @ ''</strong>'')
      = (case indexOf str pat of
           None \<Rightarrow> str
         | Some k \<Rightarrow>
             take k str @ (''<strong>'' @ suggestion (analysisSuggestions s ! i) @ ''</strong>'')
             @ drop (k + length pat) str)" for str pat
    by (rule replace_literal)
  show ?thesis by (simp only: accept_runs_replace [OF assms(1,2)] r)
qed

lemma accept_literal_example:
  "\<not> dollarPattern ''$5''
   \<and> writingEditor (snd (handleSuggestionClick escapingEnv (Button [''accept''] 0)
        (proofreading\<lparr>analysisSuggestions :=
           [\<lparr>category = ''Style'', issue = ''price'', suggestion = ''$5'',
             explanation = ''Name the amount.''\<rparr>]\<rparr>)))
       = parseHTML escapingEnv ''Teh <strong>$5</strong>: use the dollar sign here''"
  by code_simp

text \<open>
  Claim C7 says that accepting a pending suggestion whose issue occurs in the draft
  replaces the first literal occurrence of the issue with the suggestion text.  The code
  does not do so for every suggestion: it hands the suggestion to \<^verbatim>\<open>replace\<close> as a
  replacement string, in which \<^verbatim>\<open>$'\<close> stands for the text after the match.  The editor of
  the example holds \<^verbatim>\<open>Teh price: use the dollar sign here\<close>, and its second pending
  suggestion has the issue \<^verbatim>\<open>dollar sign\<close> and the suggestion \<^verbatim>\<open>'$' sign\<close>.  The issue occurs
  in the draft, once.  Accepting the suggestion assigns
  \<^verbatim>\<open>Teh price: use the <strong>' here sign</strong> here\<close> to the editor, and not
  \<^verbatim>\<open>Teh price: use the <strong>'$' sign</strong> here\<close>: the suggestion text occurs nowhere
  in the new draft.  The suggestion leaves the pending list.
\<close>

theorem accepted_suggestion_not_inserted:
  "textContent (writingEditor proofreading) = ''Teh price: use the dollar sign here''
   \<and> serializeHTML escapingEnv (writingEditor proofreading) = ''Teh price: use the dollar sign here''
   \<and> map issue (analysisSuggestions proofreading) = [''Teh'', ''dollar sign'', ''the cost'']
   \<and> suggestion (analysisSuggestions proofreading ! 1) = [CHR 0x27] @ ''$'' @ [CHR 0x27] @ '' sign''
   \<and> indexOf (serializeHTML escapingEnv (writingEditor proofreading)) ''dollar sign'' = Some 19
   \<and> fst (handleSuggestionClick escapingEnv (Button [''accept''] 1) proofreading) = None
   \<and> writingEditor (snd (handleSuggestionClick escapingEnv (Button [''accept''] 1) proofreading))
       = parseHTML escapingEnv (''Teh price: use the <strong>'' @ [CHR 0x27] @ '' here sign</strong> here'')
   \<and> writingEditor (snd (handleSuggestionClick escapingEnv (Button [''accept''] 1) proofreading))
       \<noteq> parseHTML escapingEnv
            (''Teh price: use the <strong>'' @ [CHR 0x27] @ ''$'' @ [CHR 0x27] @ '' sign</strong> here'')
   \<and> \<not> sublist (suggestion (analysisSuggestions proofreading ! 1))
        (''Teh price: use the <strong>'' @ [CHR 0x27] @ '' here sign</strong> here'')
   \<and> map issue (analysisSuggestions
         (snd (handleSuggestionClick escapingEnv (Button [''accept''] 1) proofreading)))
       = [''Teh'', ''the cost'']"
  by code_simp

section \<open>Highlighting a similarity match\<close>

lemma indexOf_split:
  assumes "indexOf t s = Some i"
  shows "t = take i t @ s @ drop (i + length s) t"
    and "take (length s) (drop i t) = s"
    and "\<forall>j<length (take i t). \<not> prefix s (drop j t)"
proof -
  from assms have i: "i \<le> length t" and p: "prefix s (drop i t)"
    and f: "\<forall>j<i. \<not> prefix s (drop j t)"
    by (simp_all add: indexOf_Some_iff)
  from p obtain r where r: "drop i t = s @ r" by (auto simp: prefix_def)
  then show "take (length s) (drop i t) = s" by simp
  from r have "drop (i + length s) t = r"
    by (metis add.commute append_eq_conv_conj drop_drop)
  with r show "t = take i t @ s @ drop (i + length s) t"
    by (metis append_take_drop_id)
  from f i show "\<forall>j<length (take i t). \<not> prefix s (drop j t)" by simp
qed

lemma linear_append [simp]: "linear (xs @ ys) = linear xs @ linear ys"
  by (induction xs rule: linear.induct) auto

lemma sublist_textContent:
  "Txt t \<in> set (linear ns) \<Longrightarrow> sublist s t \<Longrightarrow> sublist s (textContent ns)"
proof (induction ns rule: linear.induct)
  case 1
  then show ?case by simp
next
  case (2 u ns)
  then show ?case
    by (auto intro: sublist_appendI sublist_order.order_trans [OF _ sublist_append_rightI]
                    sublist_order.order_trans [OF _ sublist_append_leftI])
next
  case (3 tg cl ds kids ns)
  then show ?case
    by (auto intro: sublist_order.order_trans [OF _ sublist_append_rightI]
                    sublist_order.order_trans [OF _ sublist_append_leftI])
qed

lemma walk_None:
  "(walkNode s orig sg n = None \<longleftrightarrow> (\<forall>t. Txt t \<in> set (linear [n]) \<longrightarrow> \<not> sublist s t))"
  "(walkNodes s orig sg ns = None \<longleftrightarrow> (\<forall>t. Txt t \<in> set (linear ns) \<longrightarrow> \<not> sublist s t))"
proof (induction s orig sg n and s orig sg ns rule: walkNode_walkNodes.induct)
  case (1 textToFind original sugg v)
  have "indexOf v textToFind = None \<longleftrightarrow> \<not> sublist textToFind v" by (rule indexOf_None_iff)
  then show ?case by (cases "indexOf v textToFind") auto
next
  case (2 textToFind original sugg tg cl ds kids)
  then show ?case by auto
next
  case (3 textToFind original sugg)
  then show ?case by simp
next
  case (4 textToFind original sugg n ns)
  show ?case
  proof (cases "walkNode textToFind original sugg n")
    case None
    with 4 have "linear (n # ns) = linear [n] @ linear ns" by (cases n) auto
    with 4 None show ?thesis by (auto split: option.splits)
  next
    case (Some r)
    have "linear (n # ns) = linear [n] @ linear ns" by (cases n) auto
    with 4 Some show ?thesis by (auto split: option.splits)
  qed
qed


lemma linear_Cons: "linear (n # ns) = linear [n] @ linear ns"
  by (cases n) auto

lemma textContent_Cons: "textContent (n # ns) = textContent [n] @ textContent ns"
  by (cases n) auto

lemma textContent_append [simp]: "textContent (xs @ ys) = textContent xs @ textContent ys"
  by (induction xs rule: textContent.induct) auto

lemma wrapped_context:
  assumes "wrapped s orig sg before after"
      and "\<forall>u. Txt u \<in> set L \<longrightarrow> \<not> sublist s u"
  shows "wrapped s orig sg (L @ before @ R) (L @ after @ R)"
proof -
  from assms(1) obtain A t B pre post where
        b: "before = A @ Txt t # B"
    and n: "\<forall>u. Txt u \<in> set A \<longrightarrow> \<not> sublist s u"
    and t: "t = pre @ s @ post"
    and f: "\<forall>j<length pre. \<not> prefix s (drop j t)"
    and a: "after = A @ Txt pre
                  # Open ''span'' [''similarity-highlight''] [(''original'', orig), (''suggestion'', sg)]
                  # (if s = [] then [] else [Txt s]) @ Close # Txt post # B"
    unfolding wrapped_def by blast
  have "L @ before @ R = (L @ A) @ Txt t # (B @ R)" using b by simp
  moreover have "\<forall>u. Txt u \<in> set (L @ A) \<longrightarrow> \<not> sublist s u" using n assms(2) by auto
  moreover have "L @ after @ R = (L @ A) @ Txt pre
                  # Open ''span'' [''similarity-highlight''] [(''original'', orig), (''suggestion'', sg)]
                  # (if s = [] then [] else [Txt s]) @ Close # Txt post # (B @ R)"
    using a by simp
  ultimately show ?thesis unfolding wrapped_def using t f by blast
qed

lemma walk_Some:
  "walkNode s orig sg n = Some r \<Longrightarrow>
     wrapped s orig sg (linear [n]) (linear r) \<and> textContent r = textContent [n]"
  "walkNodes s orig sg ns = Some ns' \<Longrightarrow>
     wrapped s orig sg (linear ns) (linear ns') \<and> textContent ns' = textContent ns"
proof (induction s orig sg n and s orig sg ns arbitrary: r and ns' rule: walkNode_walkNodes.induct)
  case (1 textToFind original sugg v)
  then obtain i where i: "indexOf v textToFind = Some i"
    and r: "r = [TextNode (take i v),
                 highlightSpan original sugg (take (length textToFind) (drop i v)),
                 TextNode (drop (i + length textToFind) v)]"
    by (auto split: option.splits)
  note sp = indexOf_split [OF i]
  have lin: "linear r = [] @ Txt (take i v)
        # Open ''span'' [''similarity-highlight''] [(''original'', original), (''suggestion'', sugg)]
        # (if textToFind = [] then [] else [Txt textToFind]) @ Close
        # Txt (drop (i + length textToFind) v) # []"
    unfolding r sp(2) by (simp add: highlightSpan_def)
  have "wrapped textToFind original sugg (linear [TextNode v]) (linear r)"
    unfolding wrapped_def
    apply (rule exI [where x = "[]"])
    apply (rule exI [where x = v])
    apply (rule exI [where x = "[]"])
    apply (rule exI [where x = "take i v"])
    apply (rule exI [where x = "drop (i + length textToFind) v"])
    using sp(1) sp(3) lin by simp
  moreover have "textContent r = textContent [TextNode v]"
    unfolding r sp(2) using sp(1) by (simp add: highlightSpan_def)
  ultimately show ?case by simp
next
  case (2 textToFind original sugg tg cl ds kids)
  then obtain kids' where k: "walkNodes textToFind original sugg kids = Some kids'"
    and r: "r = [Element tg cl ds kids']"
    by auto
  from 2(1) [OF k] have w: "wrapped textToFind original sugg (linear kids) (linear kids')"
    and tc: "textContent kids' = textContent kids" by simp_all
  from wrapped_context [OF w, of "[Open tg cl ds]" "[Close]"]
  have "wrapped textToFind original sugg (linear [Element tg cl ds kids]) (linear r)"
    unfolding r by simp
  with tc r show ?case by simp
next
  case (3 textToFind original sugg)
  then show ?case by simp
next
  case (4 textToFind original sugg n ns)
  show ?case
  proof (cases "walkNode textToFind original sugg n")
    case (Some r)
    with 4(3) have ns': "ns' = r @ ns" by simp
    from 4(1) [OF Some] have w: "wrapped textToFind original sugg (linear [n]) (linear r)"
      and tc: "textContent r = textContent [n]" by simp_all
    from wrapped_context [OF w, of "[]" "linear ns"]
    have "wrapped textToFind original sugg (linear (n # ns)) (linear ns')"
      unfolding ns' linear_Cons [of n ns] by simp
    moreover have "textContent ns' = textContent (n # ns)"
      unfolding ns' textContent_Cons [of n ns] using tc by simp
    ultimately show ?thesis by simp
  next
    case None
    with 4(3) obtain ns'' where k: "walkNodes textToFind original sugg ns = Some ns''"
      and ns': "ns' = n # ns''"
      by auto
    from 4(2) [OF None k] have w: "wrapped textToFind original sugg (linear ns) (linear ns'')"
      and tc: "textContent ns'' = textContent ns" by simp_all
    from None have clean: "\<forall>u. Txt u \<in> set (linear [n]) \<longrightarrow> \<not> sublist textToFind u"
      by (simp add: walk_None(1))
    from wrapped_context [OF w clean, of "[]"]
    have "wrapped textToFind original sugg (linear (n # ns)) (linear ns')"
      unfolding ns' linear_Cons [of n ns] linear_Cons [of n ns''] by simp
    moreover have "textContent ns' = textContent (n # ns)"
      unfolding ns' textContent_Cons [of n ns] textContent_Cons [of n ns''] using tc by simp
    ultimately show ?thesis by simp
  qed
qed

text \<open>
  When the similarity call returns matches, the handler highlights them one after the
  other in the editor cleared of earlier highlights, and reports their number, whether or
  not each of them was found.
\<close>

lemma similarity_check_result:
  assumes "50 \<le> length (trim (innerText E (writingEditor s)))"
      and "generateContent E (length (calls s))
             (checkPrompt (innerText E (writingEditor s)) (allSourcesText (knowledgeSources s)))
           = Some txt"
      and "JSON_parse_similarity E txt = Some results" and "results \<noteq> []"
  shows "writingEditor (handleSimilarityCheck E s)
           = foldl highlightResult (normalize (unwrapHighlights (writingEditor s))) results"
    and "alerts (handleSimilarityCheck E s)
           = alerts s @ [''Found '' @ toString (length results)
                         @ '' potential similarities. Click on the highlighted text to review.'']"
    and "length (calls (handleSimilarityCheck E s)) = Suc (length (calls s))"
  using assms
  by (simp_all add: handleSimilarityCheck_def Let_def setLoading_def removeHighlights_def
        ai_generateContent_def alert_def)

text \<open>
  Claim C5, as the code has it.  The search is made in each text node by itself.  When no
  text node of the draft contains the sentence, and in particular when the sentence does
  not occur in the text content, \<open>highlightText\<close> returns the editor as it is: nothing is
  highlighted and nothing is thrown.  When some text node contains it, the first occurrence
  in the first such node, in document order, is cut out of that node and wrapped in one new
  span of class \<^verbatim>\<open>similarity-highlight\<close>, whose data are the two strings passed; everything
  else, and the text content, stay as they are.  The handler passes the source passage
  followed by the source name, and the rewritten alternative.
\<close>

theorem highlight_wraps_first_occurrence:
  "((\<forall>t. Txt t \<in> set (linear editor) \<longrightarrow> \<not> sublist s t) \<longrightarrow>
      highlightText s orig sg editor = editor)
   \<and> (\<not> sublist s (textContent editor) \<longrightarrow> highlightText s orig sg editor = editor)
   \<and> ((\<exists>t. Txt t \<in> set (linear editor) \<and> sublist s t) \<longrightarrow>
        (\<exists>A t B pre post.
            linear editor = A @ Txt t # B
          \<and> (\<forall>u. Txt u \<in> set A \<longrightarrow> \<not> sublist s u)
          \<and> t = pre @ s @ post
          \<and> (\<forall>j<length pre. \<not> prefix s (drop j t))
          \<and> linear (highlightText s orig sg editor)
              = A @ Txt pre
                  # Open ''span'' [''similarity-highlight''] [(''original'', orig), (''suggestion'', sg)]
                  # (if s = [] then [] else [Txt s]) @ Close # Txt post # B))
   \<and> textContent (highlightText s orig sg editor) = textContent editor
   \<and> highlightResult editor result
        = highlightText (original_sentence result)
            (similar_passage_from_source result @ '' (from '' @ source_filename result @ '')'')
            (rewritten_suggestion result) editor"
proof -
  have a: "(\<forall>t. Txt t \<in> set (linear editor) \<longrightarrow> \<not> sublist s t) \<longrightarrow>
      highlightText s orig sg editor = editor"
  proof
    assume "\<forall>t. Txt t \<in> set (linear editor) \<longrightarrow> \<not> sublist s t"
    then have "walkNodes s orig sg editor = None" using walk_None(2) [of s orig sg editor] by blast
    then show "highlightText s orig sg editor = editor" by (simp add: highlightText_def)
  qed
  have b: "\<not> sublist s (textContent editor) \<longrightarrow> highlightText s orig sg editor = editor"
  proof
    assume n: "\<not> sublist s (textContent editor)"
    have "\<forall>t. Txt t \<in> set (linear editor) \<longrightarrow> \<not> sublist s t"
      using n sublist_textContent by blast
    with a show "highlightText s orig sg editor = editor" by blast
  qed
  have c: "(\<exists>t. Txt t \<in> set (linear editor) \<and> sublist s t) \<longrightarrow>
        wrapped s orig sg (linear editor) (linear (highlightText s orig sg editor))"
  proof
    assume "\<exists>t. Txt t \<in> set (linear editor) \<and> sublist s t"
    then have "walkNodes s orig sg editor \<noteq> None" using walk_None(2) [of s orig sg editor] by blast
    then obtain e' where e': "walkNodes s orig sg editor = Some e'" by blast
    from walk_Some(2) [OF e'] e'
    show "wrapped s orig sg (linear editor) (linear (highlightText s orig sg editor))"
      by (simp add: highlightText_def)
  qed
  have d: "textContent (highlightText s orig sg editor) = textContent editor"
  proof (cases "walkNodes s orig sg editor")
    case None
    then show ?thesis by (simp add: highlightText_def)
  next
    case (Some e')
    from walk_Some(2) [OF Some] Some show ?thesis by (simp add: highlightText_def)
  qed
  have e: "highlightResult editor result
        = highlightText (original_sentence result)
            (similar_passage_from_source result @ '' (from '' @ source_filename result @ '')'')
            (rewritten_suggestion result) editor"
    by (simp add: highlightResult_def)
  from a b c [unfolded wrapped_def] d e show ?thesis by (intro conjI)
qed

theorem highlight_wraps_first_occurrence_witness:
  "Txt ''Dogs bark. Cats purr. Dogs bark.'' \<in> set (linear draftWithBold)
   \<and> sublist ''Dogs bark.'' ''Dogs bark. Cats purr. Dogs bark.''
   \<and> textContent (highlightText ''Dogs bark.'' ''Dogs bark (from a.txt)'' ''Dogs make noise.'' draftWithBold)
        = textContent draftWithBold
   \<and> highlightText ''Dogs bark.'' ''Dogs bark (from a.txt)'' ''Dogs make noise.'' draftWithBold
        = [Element ''div'' [] [] [TextNode ''Cats '', Element ''strong'' [] [] [TextNode ''are''],
                                 TextNode '' nice.''],
           Element ''div'' [] []
             [TextNode [],
              Element ''span'' [''similarity-highlight'']
                [(''original'', ''Dogs bark (from a.txt)''), (''suggestion'', ''Dogs make noise.'')]
                [TextNode ''Dogs bark.''],
              TextNode '' Cats purr. Dogs bark.'']]
   \<and> \<not> sublist ''Birds sing.'' (textContent draftWithBold)
   \<and> highlightText ''Birds sing.'' ''Birds sing (from c.md)'' ''Birds chirp.'' draftWithBold = draftWithBold"
proof -
  note t = highlight_wraps_first_occurrence
  have h1: "Txt ''Dogs bark. Cats purr. Dogs bark.'' \<in> set (linear draftWithBold)"
    by (simp add: draftWithBold_def)
  have h2: "sublist ''Dogs bark.'' ''Dogs bark. Cats purr. Dogs bark.''" by code_simp
  have c1: "textContent (highlightText ''Dogs bark.'' ''Dogs bark (from a.txt)'' ''Dogs make noise.'' draftWithBold)
        = textContent draftWithBold"
    using t [of draftWithBold "''Dogs bark.''" "''Dogs bark (from a.txt)''" "''Dogs make noise.''"]
    by blast
  have ev: "highlightText ''Dogs bark.'' ''Dogs bark (from a.txt)'' ''Dogs make noise.'' draftWithBold
        = [Element ''div'' [] [] [TextNode ''Cats '', Element ''strong'' [] [] [TextNode ''are''],
                                 TextNode '' nice.''],
           Element ''div'' [] []
             [TextNode [],
              Element ''span'' [''similarity-highlight'']
                [(''original'', ''Dogs bark (from a.txt)''), (''suggestion'', ''Dogs make noise.'')]
                [TextNode ''Dogs bark.''],
              TextNode '' Cats purr. Dogs bark.'']]"
    by code_simp
  have h3: "\<not> sublist ''Birds sing.'' (textContent draftWithBold)" by code_simp
  have c3: "highlightText ''Birds sing.'' ''Birds sing (from c.md)'' ''Birds chirp.'' draftWithBold = draftWithBold"
    using t [of draftWithBold "''Birds sing.''" "''Birds sing (from c.md)''" "''Birds chirp.''"] h3
    by blast
  from h1 h2 c1 ev h3 c3 show ?thesis by blast
qed

text \<open>
  A sentence that occurs in the text content but in no single text node is not highlighted:
  here one of its words is bold, so the sentence is spread over three text nodes.
\<close>

theorem sentence_across_nodes_not_highlighted:
  "sublist ''Cats are nice.'' (textContent draftWithBold)
   \<and> highlightText ''Cats are nice.'' ''Cats are nice (from b.pdf)'' ''Cats are pleasant.'' draftWithBold
        = draftWithBold"
  by code_simp

section \<open>Resolving a similarity region\<close>

lemma stream_Cons: "stream (n # ns) = stream [n] @ stream ns"
  by (cases n) auto

lemma stream_append [simp]: "stream (xs @ ys) = stream xs @ stream ys"
  by (induction xs rule: stream.induct) auto

lemma textOf_append [simp]: "textOf (xs @ ys) = textOf xs @ textOf ys"
  by (simp add: textOf_def)

lemma textOf_chars [simp]: "textOf (map (\<lambda>c. Txt [c]) t) = t"
  by (induction t) (auto simp: textOf_def)

lemma textOf_simps [simp]:
  "textOf [] = []" "textOf (Txt t # ts) = t @ textOf ts"
  "textOf (Open tg cl ds # ts) = textOf ts" "textOf (Close # ts) = textOf ts"
  by (simp_all add: textOf_def)

lemma textOf_stream: "textOf (stream ns) = textContent ns"
  by (induction ns rule: stream.induct) auto

lemma stream_normalize: "stream (normalize ns) = stream ns"
proof (induction ns rule: normalize.induct)
  case 1
  then show ?case by simp
next
  case (2 tg cl ds kids ns)
  then show ?case by simp
next
  case (3 a ns)
  then show ?case
    by (cases "normalize ns" rule: list.exhaust; cases "hd (normalize ns)")
       (auto split: list.splits node.splits)
qed

lemma update_split:
  "i < length ns \<Longrightarrow> ns[i := m] = take i ns @ m # drop (Suc i) ns"
  by (simp add: upd_conv_take_nth_drop)

lemma around_replace:
  "around p ns = Some (A, n, B) \<Longrightarrow>
     nodeAt p ns = Some n \<and> stream ns = A @ stream [n] @ B
     \<and> stream (replaceWith p m ns) = A @ stream [m] @ B"
proof (induction p ns arbitrary: A B rule: around.induct)
  case (1 ns)
  then show ?case by simp
next
  case (2 i ns)
  then have i: "i < length ns" and A: "A = stream (take i ns)" and n: "n = ns ! i"
    and B: "B = stream (drop (Suc i) ns)"
    by (auto split: if_splits)
  have "ns = take i ns @ ns ! i # drop (Suc i) ns" using i by (simp add: id_take_nth_drop)
  then have "stream ns = stream (take i ns) @ stream [ns ! i] @ stream (drop (Suc i) ns)"
    by (metis stream_append stream_Cons)
  moreover have "stream (ns[i := m]) = stream (take i ns) @ stream [m] @ stream (drop (Suc i) ns)"
    unfolding update_split [OF i] by (metis stream_append stream_Cons)
  ultimately show ?case using i A n B by simp
next
  case (3 i j p ns)
  from 3(2) have i: "i < length ns" by (auto split: if_splits)
  from 3(2) i obtain tg cl ds kids where el: "ns ! i = Element tg cl ds kids"
    by (cases "ns ! i") auto
  from 3(2) i el obtain a b where ar: "around (j # p) kids = Some (a, n, b)"
    and A: "A = stream (take i ns) @ Open tg cl ds # a"
    and B: "B = b @ Close # stream (drop (Suc i) ns)"
    by auto
  note ih = 3(1) [OF i el ar]
  have "ns = take i ns @ Element tg cl ds kids # drop (Suc i) ns"
    using i el by (metis id_take_nth_drop)
  then have s1: "stream ns = stream (take i ns) @ stream [Element tg cl ds kids] @ stream (drop (Suc i) ns)"
    by (metis stream_append stream_Cons)
  have s2: "stream (ns[i := Element tg cl ds (replaceWith (j # p) m kids)])
      = stream (take i ns) @ stream [Element tg cl ds (replaceWith (j # p) m kids)]
          @ stream (drop (Suc i) ns)"
    unfolding update_split [OF i] by (metis stream_append stream_Cons)
  from ih s1 s2 i el A B show ?case by simp
qed

lemma around_defined:
  "nodeAt p ns = Some n \<Longrightarrow> \<exists>A B. around p ns = Some (A, n, B)"
proof (induction p ns rule: around.induct)
  case (1 ns)
  then show ?case by simp
next
  case (2 i ns)
  then show ?case by (auto split: if_splits)
next
  case (3 i j p ns)
  from 3(2) have i: "i < length ns" by (auto split: if_splits)
  from 3(2) i obtain tg cl ds kids where el: "ns ! i = Element tg cl ds kids"
    and at: "nodeAt (j # p) kids = Some n"
    by (cases "ns ! i") auto
  from 3(1) [OF i el at] obtain a b where "around (j # p) kids = Some (a, n, b)" by blast
  with i el show ?case by simp
qed

text \<open>
  Claim C6.  Let the active highlight be an element of the editor, with the stream \<open>A\<close>
  before it and the stream \<open>B\<close> after it.  Accepting puts the characters of its
  \<^verbatim>\<open>data-suggestion\<close> in its place: the stream of the editor becomes \<open>A\<close>, these characters,
  \<open>B\<close>, so neither the element nor anything inside it is left.  Dismissing puts the
  characters of its own text content in its place, and the text content of the editor is
  the one from before.  After either action no highlight is active and the tooltip is
  hidden, so that repeating the action changes nothing.  For a span made by
  \<open>highlightText\<close> the suggestion read back is the rewritten alternative it was given.
\<close>

theorem resolve_similarity_region:
  assumes act: "activeSimilarityHighlight s = Some (InEditor p)"
      and ar: "around p (writingEditor s) = Some (A, Element tg cl ds kids, B)"
  shows "stream (writingEditor s) = A @ Open tg cl ds # stream kids @ Close # B
       \<and> stream (writingEditor (acceptSimilaritySuggestion s))
           = A @ map (\<lambda>c. Txt [c]) (dataset_get ds ''suggestion'') @ B
       \<and> textContent (writingEditor (acceptSimilaritySuggestion s))
           = textOf A @ dataset_get ds ''suggestion'' @ textOf B
       \<and> stream (writingEditor (dismissSimilaritySuggestion s))
           = A @ map (\<lambda>c. Txt [c]) (textContent kids) @ B
       \<and> textContent (writingEditor (dismissSimilaritySuggestion s)) = textContent (writingEditor s)
       \<and> activeSimilarityHighlight (acceptSimilaritySuggestion s) = None
       \<and> tooltipHidden (acceptSimilaritySuggestion s)
       \<and> activeSimilarityHighlight (dismissSimilaritySuggestion s) = None
       \<and> tooltipHidden (dismissSimilaritySuggestion s)
       \<and> acceptSimilaritySuggestion (acceptSimilaritySuggestion s) = acceptSimilaritySuggestion s
       \<and> dismissSimilaritySuggestion (dismissSimilaritySuggestion s) = dismissSimilaritySuggestion s
       \<and> dataset_get (dataset (highlightSpan orig sg wrappedText)) ''suggestion'' = sg"
proof -
  let ?el = "Element tg cl ds kids"
  let ?sugg = "dataset_get ds ''suggestion''"
  have at: "nodeAt p (writingEditor s) = Some ?el"
    and st: "stream (writingEditor s) = A @ stream [?el] @ B"
    and rp: "stream (replaceWith p m (writingEditor s)) = A @ stream [m] @ B" for m
    using around_replace [OF ar] by blast+
  have acc: "acceptSimilaritySuggestion s
      = hideSimilarityTooltip
          (s\<lparr>writingEditor := normalize (replaceWith p (TextNode ?sugg) (writingEditor s))\<rparr>)"
    using act at by (simp add: acceptSimilaritySuggestion_def resolveHighlight_def)
  have dis: "dismissSimilaritySuggestion s
      = hideSimilarityTooltip
          (s\<lparr>writingEditor := normalize (replaceWith p (TextNode (textContent kids)) (writingEditor s))\<rparr>)"
    using act at by (simp add: dismissSimilaritySuggestion_def resolveHighlight_def)
  have a: "stream (writingEditor s) = A @ Open tg cl ds # stream kids @ Close # B"
    using st by simp
  have b: "stream (writingEditor (acceptSimilaritySuggestion s)) = A @ map (\<lambda>c. Txt [c]) ?sugg @ B"
    unfolding acc by (simp add: hideSimilarityTooltip_def stream_normalize rp)
  have c: "textContent (writingEditor (acceptSimilaritySuggestion s)) = textOf A @ ?sugg @ textOf B"
    using arg_cong [OF b, of textOf] by (simp add: textOf_stream)
  have d: "stream (writingEditor (dismissSimilaritySuggestion s))
      = A @ map (\<lambda>c. Txt [c]) (textContent kids) @ B"
    unfolding dis by (simp add: hideSimilarityTooltip_def stream_normalize rp)
  have "textOf (stream (writingEditor s)) = textOf A @ textContent kids @ textOf B"
    unfolding a by (simp add: textOf_stream)
  then have e: "textContent (writingEditor (dismissSimilaritySuggestion s)) = textContent (writingEditor s)"
    using arg_cong [OF d, of textOf] by (simp add: textOf_stream)
  have f: "activeSimilarityHighlight (acceptSimilaritySuggestion s) = None"
    "tooltipHidden (acceptSimilaritySuggestion s)"
    "activeSimilarityHighlight (dismissSimilaritySuggestion s) = None"
    "tooltipHidden (dismissSimilaritySuggestion s)"
    unfolding acc dis by (simp_all add: hideSimilarityTooltip_def)
  have g: "acceptSimilaritySuggestion (acceptSimilaritySuggestion s) = acceptSimilaritySuggestion s"
    using f(1,2)
    by (simp add: acceptSimilaritySuggestion_def [of "acceptSimilaritySuggestion s"]
          resolveHighlight_def hideSimilarityTooltip_def)
  have h: "dismissSimilaritySuggestion (dismissSimilaritySuggestion s) = dismissSimilaritySuggestion s"
    using f(3,4)
    by (simp add: dismissSimilaritySuggestion_def [of "dismissSimilaritySuggestion s"]
          resolveHighlight_def hideSimilarityTooltip_def)
  have i: "dataset_get (dataset (highlightSpan orig sg wrappedText)) ''suggestion'' = sg"
    by (simp add: highlightSpan_def dataset_get_def)
  from a b c d e f g h i show ?thesis by (intro conjI)
qed

theorem resolve_similarity_region_witness:
  "activeSimilarityHighlight reviewing = Some (InEditor [1, 1])
   \<and> nodeAt [1, 1] (writingEditor reviewing)
        = Some (Element ''span'' [''similarity-highlight'']
                  [(''original'', ''Dogs bark (from a.txt)''), (''suggestion'', ''Dogs make noise.'')]
                  [TextNode ''Dogs bark.''])
   \<and> writingEditor (acceptSimilaritySuggestion reviewing)
        = [Element ''div'' [] [] [TextNode ''Cats '', Element ''strong'' [] [] [TextNode ''are''],
                                 TextNode '' nice.''],
           Element ''div'' [] [] [TextNode ''Dogs make noise. Cats purr. Dogs bark.'']]
   \<and> writingEditor (dismissSimilaritySuggestion reviewing) = draftWithBold
   \<and> textContent (writingEditor (dismissSimilaritySuggestion reviewing))
        = textContent (writingEditor reviewing)
   \<and> activeSimilarityHighlight (acceptSimilaritySuggestion reviewing) = None
   \<and> activeSimilarityHighlight (dismissSimilaritySuggestion reviewing) = None"
proof -
  let ?span = "Element ''span'' [''similarity-highlight'']
                  [(''original'', ''Dogs bark (from a.txt)''), (''suggestion'', ''Dogs make noise.'')]
                  [TextNode ''Dogs bark.'']"
  have act: "activeSimilarityHighlight reviewing = Some (InEditor [1, 1])"
    by (simp add: reviewing_def)
  have mid: "map_option (\<lambda>(a, n, b). n) (around [1, 1] (writingEditor reviewing)) = Some ?span"
    by code_simp
  then obtain A B where ar: "around [1, 1] (writingEditor reviewing) = Some (A, ?span, B)"
    by (cases "around [1, 1] (writingEditor reviewing)") auto
  note t = resolve_similarity_region [OF act ar]
  have at: "nodeAt [1, 1] (writingEditor reviewing) = Some ?span" by code_simp
  have ev: "writingEditor (acceptSimilaritySuggestion reviewing)
        = [Element ''div'' [] [] [TextNode ''Cats '', Element ''strong'' [] [] [TextNode ''are''],
                                 TextNode '' nice.''],
           Element ''div'' [] [] [TextNode ''Dogs make noise. Cats purr. Dogs bark.'']]
     \<and> writingEditor (dismissSimilaritySuggestion reviewing) = draftWithBold"
    by code_simp
  have c1: "textContent (writingEditor (dismissSimilaritySuggestion reviewing))
        = textContent (writingEditor reviewing)"
    using t by blast
  have c2: "activeSimilarityHighlight (acceptSimilaritySuggestion reviewing) = None"
    using t by blast
  have c3: "activeSimilarityHighlight (dismissSimilaritySuggestion reviewing) = None"
    using t by blast
  from act at ev c1 c2 c3 show ?thesis by blast
qed

end
